theory Spec2Isabelle
  imports Complex_Main
begin

section \<open>The resilient stream recorder of index.js\<close>

text \<open>
  The class \<open>ResilientStreamRecorder\<close> is a record of its fields. Everything outside
  the object that its methods touch is a second record, \<open>world\<close>: the regular files of
  the file system by path, the child processes spawned so far (a process handle is the
  position in that list), the signals sent, and the interval timers that are armed.
  A method takes and returns the pair of both. JavaScript is single threaded, so each
  callback (a \<open>close\<close> handler, a timer body, the code after an \<open>await\<close>) runs to its
  end without interruption and is one function of the model.

  Times are milliseconds as \<open>int\<close> (\<open>Date.now()\<close> is passed in as an argument).
  An exit code is \<open>int option\<close>: \<open>None\<close> is the \<open>null\<close> that Node reports for a
  process ended by a signal.
\<close>

subsection \<open>Strings and paths\<close>

fun string_of_nat :: "nat \<Rightarrow> string" where
  "string_of_nat n =
     (if n < 10 then [char_of (48 + n)]
      else string_of_nat (n div 10) @ [char_of (48 + n mod 10)])"

declare string_of_nat.simps [simp del]

definition string_of_int :: "int \<Rightarrow> string" where
  "string_of_int i = (if i < 0 then CHR ''-'' # string_of_nat (nat (- i)) else string_of_nat (nat i))"

text \<open>
  \<open>path.join\<close> and \<open>path.resolve\<close> without the normalisation of \<open>.\<close> and \<open>..\<close>
  segments: paths are used as keys of the file system only.
\<close>

definition path_join :: "string \<Rightarrow> string \<Rightarrow> string" where
  "path_join dir name = dir @ ''/'' @ name"

definition path_resolve :: "string \<Rightarrow> string \<Rightarrow> string" where
  "path_resolve cwd p = (case p of CHR ''/'' # _ \<Rightarrow> p | _ \<Rightarrow> path_join cwd p)"

fun join_lines :: "string list \<Rightarrow> string" where
  "join_lines [] = []"
| "join_lines [l] = l"
| "join_lines (l # ls) = l @ [CHR 0x0A] @ join_lines ls"

subsection \<open>Errors\<close>

datatype error =
    NoRecordingsToMerge
  | MergeFailed "int option"
  | ENOENT string
  | SpawnFailed
  | InvalidURL string
  | UnescapedCharacters string
  | StreamDown

subsection \<open>The world outside the object\<close>

type_synonym filesystem = "string \<rightharpoonup> string"

record world =
  files :: filesystem
  cwd :: string
  spawned :: "(string \<times> string list) list"
  signals :: "(nat \<times> string) list"
  intervals :: "nat list"
  nextTimer :: nat

definition existsSync :: "world \<Rightarrow> string \<Rightarrow> bool" where
  "existsSync w p = (files w p \<noteq> None)"

definition remove_file :: "world \<Rightarrow> string \<Rightarrow> world" where
  "remove_file w p = w\<lparr>files := (files w)(p := None)\<rparr>"

definition unlinkSync :: "world \<Rightarrow> string \<Rightarrow> error + world" where
  "unlinkSync w p = (if files w p = None then Inl (ENOENT p) else Inr (remove_file w p))"

text \<open>\<open>if (fs.existsSync(p)) fs.unlinkSync(p)\<close>, which cannot throw \<open>ENOENT\<close>.\<close>

definition unlink_if_exists :: "world \<Rightarrow> string \<Rightarrow> world" where
  "unlink_if_exists w p = (if existsSync w p then remove_file w p else w)"

definition renameSync :: "world \<Rightarrow> string \<Rightarrow> string \<Rightarrow> error + world" where
  "renameSync w src dst =
     (case files w src of
        None \<Rightarrow> Inl (ENOENT src)
      | Some bytes \<Rightarrow> Inr (w\<lparr>files := ((files w)(src := None))(dst \<mapsto> bytes)\<rparr>))"

definition writeFileSync :: "world \<Rightarrow> string \<Rightarrow> string \<Rightarrow> world" where
  "writeFileSync w p content = w\<lparr>files := (files w)(p \<mapsto> content)\<rparr>"

definition spawn :: "string \<Rightarrow> string list \<Rightarrow> world \<Rightarrow> nat \<times> world" where
  "spawn cmd args w = (length (spawned w), w\<lparr>spawned := spawned w @ [(cmd, args)]\<rparr>)"

definition kill :: "nat \<Rightarrow> string \<Rightarrow> world \<Rightarrow> world" where
  "kill pid sig w = w\<lparr>signals := signals w @ [(pid, sig)]\<rparr>"

definition setInterval :: "world \<Rightarrow> nat \<times> world" where
  "setInterval w = (nextTimer w, w\<lparr>intervals := nextTimer w # intervals w, nextTimer := Suc (nextTimer w)\<rparr>)"

definition clearInterval :: "nat \<Rightarrow> world \<Rightarrow> world" where
  "clearInterval t w = w\<lparr>intervals := removeAll t (intervals w)\<rparr>"

subsection \<open>The recorder object\<close>

record recording =
  file' :: string
  duration :: int
  index :: nat

record recorder =
  streamUrl :: string
  outputDir :: string
  recordings :: "recording list"
  totalDurationMs :: int
  recordedDurationMs :: int
  isRecording :: bool
  isMonitoring :: bool
  currentProcess :: "nat option"
  startTime :: "int option"
  sessionId :: nat
  streamMonitorInterval :: "nat option"
  quickCheckInterval :: "nat option"
  lastSuccessfulCheck :: "int option"
  consecutiveFailures :: nat
  isStreamAvailable :: bool

text \<open>
  The constructor. \<open>now\<close> is \<open>Date.now()\<close>; the output directory is created when
  \<open>dirExists\<close>, the answer of \<open>fs.existsSync(outputDir)\<close>, is false: the second
  component is the directory created, if any.
\<close>

definition constructor :: "string \<Rightarrow> string \<Rightarrow> nat \<Rightarrow> bool \<Rightarrow> recorder \<times> string option" where
  "constructor url dir now dirExists =
     (\<lparr>streamUrl = url, outputDir = dir, recordings = [], totalDurationMs = 0,
       recordedDurationMs = 0, isRecording = False, isMonitoring = False,
       currentProcess = None, startTime = None, sessionId = now,
       streamMonitorInterval = None, quickCheckInterval = None,
       lastSuccessfulCheck = None, consecutiveFailures = 0, isStreamAvailable = False\<rparr>,
      if \<not> dirExists then Some dir else None)"

subsection \<open>The shallow availability probe\<close>

text \<open>
  \<open>checkStreamAvailability\<close> builds a promise whose executor parses the stream URL,
  arms a 3000 ms timer that resolves \<open>false\<close>, and sends a \<open>HEAD\<close> request. Two
  calls of the executor can throw, and it has no handler, so either makes the promise
  reject. The parser \<open>new URL\<close> is a parameter: it gives \<open>None\<close> where Node throws
  a \<open>TypeError\<close>. \<open>client.request\<close> throws \<open>ERR_UNESCAPED_CHARACTERS\<close> when the
  path it is given holds a character outside U+0021..U+00FF; the parser escapes every
  character above U+007E, and a \<open>char\<close> of the model is a code point up to U+00FF, so
  what is left to test is the lower bound (a space, which the parser keeps in the path
  of a URL such as \<open>foo:a b\<close>).
  The argument \<open>evs\<close> lists what the request emits before the 3000 ms timer fires, in
  order; the first settles the promise and later calls of \<open>resolve\<close> do nothing. When
  the request emits nothing in time, the timer resolves \<open>false\<close>.
\<close>

record url =
  protocol :: string
  hostname :: string
  port :: string
  pathname :: string
  search :: string

datatype http_client = Https | Http

record request_options =
  opt_hostname :: string
  opt_port :: string
  opt_path :: string
  opt_method :: string
  opt_timeout :: nat

datatype request_event = Response nat | RequestError | RequestTimeout

definition probe_request :: "url \<Rightarrow> http_client \<times> request_options" where
  "probe_request u =
     (if protocol u = ''https:'' then Https else Http,
      \<lparr>opt_hostname = hostname u, opt_port = port u, opt_path = pathname u @ search u,
       opt_method = ''HEAD'', opt_timeout = 3000\<rparr>)"

definition on_request_event :: "request_event \<Rightarrow> bool" where
  "on_request_event e =
     (case e of
        Response statusCode \<Rightarrow> statusCode = 200 \<or> statusCode = 206
      | RequestError \<Rightarrow> False
      | RequestTimeout \<Rightarrow> False)"

definition request_throws :: "request_options \<Rightarrow> bool" where
  "request_throws opts = list_ex (\<lambda>c. (of_char c :: nat) < 0x21) (opt_path opts)"

definition checkStreamAvailability ::
  "(string \<Rightarrow> url option) \<Rightarrow> recorder \<Rightarrow> request_event list \<Rightarrow> error + bool" where
  "checkStreamAvailability new_URL r evs =
     (case new_URL (streamUrl r) of
        None \<Rightarrow> Inl (InvalidURL (streamUrl r))
      | Some u \<Rightarrow>
          if request_throws (snd (probe_request u))
          then Inl (UnescapedCharacters (opt_path (snd (probe_request u))))
          else
            (case evs of
               [] \<Rightarrow> Inr False
             | e # _ \<Rightarrow> Inr (on_request_event e)))"

subsection \<open>Outage monitoring\<close>

definition ffprobe_args :: "recorder \<Rightarrow> string list" where
  "ffprobe_args r =
     [''-v'', ''quiet'', ''-print_format'', ''json'', ''-show_streams'',
      ''-timeout'', ''5000000'', streamUrl r]"

definition startContinuousMonitoring :: "recorder \<times> world \<Rightarrow> recorder \<times> world" where
  "startContinuousMonitoring s =
     (case s of (r, w) \<Rightarrow>
        if \<not> isMonitoring r \<or> isRecording r then (r, w)
        else (r, snd (spawn ''ffprobe'' (ffprobe_args r) w)))"

definition startStreamMonitoring :: "recorder \<times> world \<Rightarrow> recorder \<times> world" where
  "startStreamMonitoring s =
     (case s of (r, w) \<Rightarrow>
        if isMonitoring r then (r, w)
        else
          (let r1 = r\<lparr>isMonitoring := True\<rparr>;
               (t, w1) = setInterval w;
               r2 = r1\<lparr>quickCheckInterval := Some t\<rparr>
           in startContinuousMonitoring (r2, w1)))"

definition stopStreamMonitoring :: "recorder \<times> world \<Rightarrow> recorder \<times> world" where
  "stopStreamMonitoring s =
     (case s of (r, w) \<Rightarrow>
        (let r1 = r\<lparr>isMonitoring := False\<rparr>
         in case quickCheckInterval r1 of
              Some t \<Rightarrow> (r1\<lparr>quickCheckInterval := None\<rparr>, clearInterval t w)
            | None \<Rightarrow> (r1, w)))"

subsection \<open>Capturing one segment\<close>

text \<open>
  \<open>recordSegment\<close> up to the point where it has spawned the capture process. The
  values its \<open>close\<close> and \<open>error\<close> handlers keep in their closure are returned as a
  \<open>capture\<close>; \<open>None\<close> is the early return of a session that is complete.
\<close>

record capture =
  remainingMs :: int
  segmentIndex :: nat
  segmentFile :: string
  segmentStartTime :: int

definition segment_name :: "nat \<Rightarrow> nat \<Rightarrow> string" where
  "segment_name sid i = ''segment_'' @ string_of_nat sid @ ''_'' @ string_of_nat i @ ''.mp4''"

definition ffmpegArgs :: "recorder \<Rightarrow> int \<Rightarrow> string \<Rightarrow> string list" where
  "ffmpegArgs r remaining segFile =
     [''-i'', streamUrl r, ''-c'', ''copy'', ''-avoid_negative_ts'', ''make_zero'',
      ''-fflags'', ''+genpts'', ''-reconnect'', ''1'', ''-reconnect_at_eof'', ''1'',
      ''-reconnect_streamed'', ''1'', ''-reconnect_delay_max'', ''2'',
      ''-t'', string_of_int \<lceil>rat_of_int remaining / 1000\<rceil>, ''-y'', segFile]"

definition recordSegment :: "int \<Rightarrow> recorder \<times> world \<Rightarrow> (recorder \<times> world) \<times> capture option" where
  "recordSegment now s =
     (case s of (r, w) \<Rightarrow>
        if recordedDurationMs r \<ge> totalDurationMs r then ((r, w), None)
        else
          (let remaining = totalDurationMs r - recordedDurationMs r;
               i = length (recordings r);
               segFile = path_join (outputDir r) (segment_name (sessionId r) i);
               r1 = r\<lparr>isRecording := True\<rparr>;
               (pid, w1) = spawn ''ffmpeg'' (ffmpegArgs r1 remaining segFile) w;
               r2 = r1\<lparr>currentProcess := Some pid\<rparr>
           in ((r2, w1),
               Some \<lparr>remainingMs = remaining, segmentIndex = i, segmentFile = segFile,
                     segmentStartTime = now\<rparr>)))"

text \<open>
  The \<open>close\<close> handler of the capture process. \<open>Continue\<close> stands for the 100 ms
  timer that calls \<open>recordSegment\<close> again, \<open>Resolve\<close> for the plain \<open>resolve()\<close>.
\<close>

datatype after_close = Continue | Resolve

definition capture_close ::
  "capture \<Rightarrow> int option \<Rightarrow> int \<Rightarrow> recorder \<times> world \<Rightarrow> (recorder \<times> world) \<times> after_close" where
  "capture_close cap code now s =
     (case s of (r, w) \<Rightarrow>
        (let r1 = r\<lparr>isRecording := False\<rparr>;
             segmentDuration = now - segmentStartTime cap
         in if code = Some 0 \<and> existsSync w (segmentFile cap) then
              (let r2 = r1\<lparr>recordings := recordings r1 @
                             [\<lparr>file' = segmentFile cap, duration = segmentDuration,
                               index = segmentIndex cap\<rparr>]\<rparr>;
                   r3 = r2\<lparr>recordedDurationMs := recordedDurationMs r2 + segmentDuration\<rparr>
               in if recordedDurationMs r3 < totalDurationMs r3 then ((r3, w), Continue)
                  else ((r3, w), Resolve))
            else
              (let w1 = unlink_if_exists w (segmentFile cap);
                   r2 = r1\<lparr>isStreamAvailable := False\<rparr>
               in (startStreamMonitoring (r2, w1), Resolve))))"

text \<open>The \<open>error\<close> handler of the capture process.\<close>

definition capture_error :: "capture \<Rightarrow> recorder \<times> world \<Rightarrow> recorder \<times> world" where
  "capture_error cap s =
     (case s of (r, w) \<Rightarrow>
        (let r1 = r\<lparr>isRecording := False\<rparr>;
             r2 = r1\<lparr>isStreamAvailable := False\<rparr>
         in startStreamMonitoring (r2, w)))"

definition resumeRecording :: "int \<Rightarrow> recorder \<times> world \<Rightarrow> (recorder \<times> world) \<times> capture option" where
  "resumeRecording now s =
     (case s of (r, w) \<Rightarrow>
        if isRecording r then ((r, w), None)
        else if recordedDurationMs r \<ge> totalDurationMs r then ((r, w), None)
        else recordSegment now (stopStreamMonitoring (r, w)))"

text \<open>
  The body of the 2000 ms interval after its \<open>await\<close>: \<open>isAvailable\<close> is what the
  probe resolved to. (Before the \<open>await\<close> the body only returns when \<open>isRecording\<close>
  is set.)
\<close>

definition quickCheck_tick :: "recorder \<Rightarrow> bool" where
  "quickCheck_tick r = (\<not> isRecording r)"

definition quickCheck_result ::
  "int \<Rightarrow> bool \<Rightarrow> recorder \<times> world \<Rightarrow> (recorder \<times> world) \<times> capture option" where
  "quickCheck_result now isAvailable s =
     (case s of (r, w) \<Rightarrow>
        (let wasAvailable = isStreamAvailable r;
             r1 = r\<lparr>isStreamAvailable := isAvailable\<rparr>
         in if isAvailable then
              (let r2 = r1\<lparr>consecutiveFailures := 0, lastSuccessfulCheck := Some now\<rparr>
               in if \<not> wasAvailable then resumeRecording now (r2, w) else ((r2, w), None))
            else ((r1\<lparr>consecutiveFailures := Suc (consecutiveFailures r1)\<rparr>, w), None)))"

text \<open>
  The deep probe: whether its \<open>close\<close> handler asks for a shallow check, what happens
  when that check resolves, and the body of the timer that re-arms the probe.
\<close>

definition probe_close_verifies :: "int option \<Rightarrow> recorder \<Rightarrow> bool" where
  "probe_close_verifies code r = (code = Some 0 \<and> \<not> isStreamAvailable r)"

definition probe_verified ::
  "int \<Rightarrow> bool \<Rightarrow> recorder \<times> world \<Rightarrow> (recorder \<times> world) \<times> capture option" where
  "probe_verified now isAvailable s =
     (case s of (r, w) \<Rightarrow>
        if isAvailable \<and> \<not> isRecording r
        then resumeRecording now (r\<lparr>isStreamAvailable := True\<rparr>, w)
        else ((r, w), None))"

definition probe_rearm :: "recorder \<times> world \<Rightarrow> recorder \<times> world" where
  "probe_rearm s =
     (case s of (r, w) \<Rightarrow>
        if isMonitoring r \<and> \<not> isRecording r then startContinuousMonitoring (r, w) else (r, w))"

subsection \<open>Starting a session and waiting for its end\<close>

text \<open>
  \<open>startRecording\<close> in three parts: the resets before the first \<open>await\<close>, the code
  after the initial probe has resolved, and \<open>checkCompletion\<close>, the body of the
  1000 ms polling timer, which gives \<open>None\<close> when it only re-arms itself.
\<close>

definition final_output :: "recorder \<Rightarrow> string option \<Rightarrow> string" where
  "final_output r finalOutputName =
     (case finalOutputName of
        Some n \<Rightarrow> if n = [] then ''recording_'' @ string_of_nat (sessionId r) @ ''.mp4'' else n
      | None \<Rightarrow> ''recording_'' @ string_of_nat (sessionId r) @ ''.mp4'')"

definition startRecording_reset :: "int \<Rightarrow> int \<Rightarrow> recorder \<Rightarrow> recorder" where
  "startRecording_reset durationMinutes now r =
     r\<lparr>totalDurationMs := durationMinutes * 60 * 1000, recordedDurationMs := 0,
       recordings := [], startTime := Some now\<rparr>"

definition startRecording_checked ::
  "bool \<Rightarrow> int \<Rightarrow> recorder \<times> world \<Rightarrow> (recorder \<times> world) \<times> capture option" where
  "startRecording_checked isInitiallyAvailable now s =
     (case s of (r, w) \<Rightarrow>
        (let r1 = r\<lparr>isStreamAvailable := isInitiallyAvailable\<rparr>
         in if isInitiallyAvailable then recordSegment now (r1, w)
            else (startStreamMonitoring (r1, w), None)))"

subsection \<open>Merging\<close>

text \<open>
  \<open>mergeRecordings\<close> up to its first return: it throws without any effect on an empty
  list, renames the file of a single segment, and otherwise sorts the list in place,
  writes the manifest and spawns the concatenation process; the \<open>merge\<close> returned then
  holds what the handlers of that process keep in their closure.
\<close>

record merge =
  finalPath :: string
  concatFile :: string

datatype merge_step = Moved string | Spawned merge

definition concat_name :: "nat \<Rightarrow> string" where
  "concat_name sid = ''concat_'' @ string_of_nat sid @ ''.txt''"

definition concatContent :: "string \<Rightarrow> recording list \<Rightarrow> string" where
  "concatContent dir rs =
     join_lines (map (\<lambda>recording. ''file '' @ [CHR 0x27] @ path_resolve dir (file' recording) @ [CHR 0x27]) rs)"

definition mergeArgs :: "merge \<Rightarrow> string list" where
  "mergeArgs m =
     [''-f'', ''concat'', ''-safe'', ''0'', ''-i'', concatFile m, ''-c'', ''copy'', ''-y'', finalPath m]"

definition mergeRecordings ::
  "string \<Rightarrow> recorder \<times> world \<Rightarrow> (recorder \<times> world) \<times> (error + merge_step)" where
  "mergeRecordings finalOutputName s =
     (case s of (r, w) \<Rightarrow>
        if length (recordings r) = 0 then ((r, w), Inl NoRecordingsToMerge)
        else if length (recordings r) = 1 then
          (let final = path_join (outputDir r) finalOutputName
           in case renameSync w (file' (recordings r ! 0)) final of
                Inl e \<Rightarrow> ((r, w), Inl e)
              | Inr w1 \<Rightarrow> ((r, w1), Inr (Moved final)))
        else
          (let m = \<lparr>finalPath = path_join (outputDir r) finalOutputName,
                    concatFile = path_join (outputDir r) (concat_name (sessionId r))\<rparr>;
               r1 = r\<lparr>recordings := sort_key index (recordings r)\<rparr>;
               w1 = writeFileSync w (concatFile m) (concatContent (cwd w) (recordings r1));
               (pid, w2) = spawn ''ffmpeg'' (mergeArgs m) w1
           in ((r1, w2), Inr (Spawned m))))"

text \<open>
  The \<open>close\<close> handler of the concatenation process: the manifest is unlinked, then every
  segment file that exists, and only then the exit code is looked at. An \<open>ENOENT\<close> of
  the first \<open>unlinkSync\<close> leaves the handler as an exception. The \<open>error\<close> handler is
  \<open>reject\<close> itself.
\<close>

definition merge_close ::
  "merge \<Rightarrow> int option \<Rightarrow> recorder \<times> world \<Rightarrow> (recorder \<times> world) \<times> (error + string)" where
  "merge_close m code s =
     (case s of (r, w) \<Rightarrow>
        (case unlinkSync w (concatFile m) of
           Inl e \<Rightarrow> ((r, w), Inl e)
         | Inr w1 \<Rightarrow>
             (let w2 = fold (\<lambda>recording w'. unlink_if_exists w' (file' recording)) (recordings r) w1
              in if code = Some 0 then ((r, w2), Inr (finalPath m))
                 else ((r, w2), Inl (MergeFailed code)))))"

definition merge_error :: "merge \<Rightarrow> error \<Rightarrow> recorder \<times> world \<Rightarrow> (recorder \<times> world) \<times> (error + string)" where
  "merge_error m e s = (s, Inl e)"

definition checkCompletion ::
  "string \<Rightarrow> recorder \<times> world \<Rightarrow> ((recorder \<times> world) \<times> (error + merge_step)) option" where
  "checkCompletion finalOutput s =
     (case s of (r, w) \<Rightarrow>
        if recordedDurationMs r \<ge> totalDurationMs r \<and> \<not> isRecording r
        then Some (mergeRecordings finalOutput (stopStreamMonitoring (r, w)))
        else None)"

subsection \<open>Stopping and reporting\<close>

definition stop :: "recorder \<times> world \<Rightarrow> recorder \<times> world" where
  "stop s =
     (case stopStreamMonitoring s of (r, w) \<Rightarrow>
        (case currentProcess r of
           Some pid \<Rightarrow> (r\<lparr>isRecording := False\<rparr>, kill pid ''SIGTERM'' w)
         | None \<Rightarrow> (r, w)))"

text \<open>
  \<open>getStatus\<close> divides two numbers, and a JavaScript division by zero does not
  throw: it gives \<open>NaN\<close> for \<open>0/0\<close> and an infinity otherwise. The values of the
  three numeric fields that are computed are therefore \<open>jsnum\<close>s: a rational, an
  infinity or \<open>NaN\<close> (rounding and the sign of zero are left out).
\<close>

datatype jsnum = Num rat | PosInfinity | NegInfinity | NaN

definition js_div :: "int \<Rightarrow> int \<Rightarrow> jsnum" where
  "js_div a b =
     (if b = 0 then (if a = 0 then NaN else if a > 0 then PosInfinity else NegInfinity)
      else Num (rat_of_int a / rat_of_int b))"

definition js_times :: "jsnum \<Rightarrow> rat \<Rightarrow> jsnum" where
  "js_times x c =
     (case x of
        Num q \<Rightarrow> Num (q * c)
      | PosInfinity \<Rightarrow> (if c = 0 then NaN else if c > 0 then PosInfinity else NegInfinity)
      | NegInfinity \<Rightarrow> (if c = 0 then NaN else if c > 0 then NegInfinity else PosInfinity)
      | NaN \<Rightarrow> NaN)"

definition js_floor :: "jsnum \<Rightarrow> jsnum" where
  "js_floor x = (case x of Num q \<Rightarrow> Num (rat_of_int \<lfloor>q\<rfloor>) | _ \<Rightarrow> x)"

record status =
  st_isRecording :: bool
  st_isMonitoring :: bool
  st_isStreamAvailable :: bool
  recordedDuration :: jsnum
  totalDuration :: jsnum
  progress :: jsnum
  segmentsRecorded :: nat
  st_consecutiveFailures :: nat

definition getStatus :: "recorder \<Rightarrow> status" where
  "getStatus r =
     \<lparr>st_isRecording = isRecording r,
      st_isMonitoring = isMonitoring r,
      st_isStreamAvailable = isStreamAvailable r,
      recordedDuration = js_floor (js_div (recordedDurationMs r) 1000),
      totalDuration = js_floor (js_div (totalDurationMs r) 1000),
      progress = js_floor (js_times (js_div (recordedDurationMs r) (totalDurationMs r)) 100),
      segmentsRecorded = length (recordings r),
      st_consecutiveFailures = consecutiveFailures r\<rparr>"

subsection \<open>A session as a sequence of capture attempts\<close>

text \<open>
  One capture attempt ends in one of two ways. Either the process closes with an exit
  code at some time, having written the bytes \<open>written\<close> to its destination
  (\<open>None\<close>: it wrote nothing). Or the process could not be spawned: it has written
  nothing, and Node emits \<open>error\<close> and then \<open>close\<close> with the negative error number
  as exit code, so both handlers run, in that order. \<open>settle\<close> runs the handlers of
  the outcome; \<open>succeeded\<close> is the test of the \<open>close\<close> handler, exit code 0 and
  the destination on disk, at the time it runs.

  \<open>next_capture\<close> is the call of \<open>recordSegment\<close> that follows: from the
  interval body that finds the stream back when the recorder is monitoring, directly
  (the 100 ms timer) otherwise. \<open>session\<close> plays a list of outcomes one capture at a
  time, each outcome with the time of the call that follows it, and collects the index
  given to every attempt.
\<close>

datatype spawn_errno = UV_EACCES | UV_EAGAIN | UV_EMFILE | UV_ENFILE | UV_ENOENT

definition uv_code :: "spawn_errno \<Rightarrow> int" where
  "uv_code e =
     (case e of
        UV_EACCES \<Rightarrow> - 13
      | UV_EAGAIN \<Rightarrow> - 11
      | UV_EMFILE \<Rightarrow> - 24
      | UV_ENFILE \<Rightarrow> - 23
      | UV_ENOENT \<Rightarrow> - 2)"

datatype outcome = Closed "int option" "string option" int | Errored spawn_errno int

definition subprocess_wrote :: "capture \<Rightarrow> string option \<Rightarrow> world \<Rightarrow> world" where
  "subprocess_wrote cap written w =
     (case written of None \<Rightarrow> w | Some bytes \<Rightarrow> writeFileSync w (segmentFile cap) bytes)"

definition settle :: "capture \<Rightarrow> outcome \<Rightarrow> recorder \<times> world \<Rightarrow> recorder \<times> world" where
  "settle cap out s =
     (case out of
        Closed code written now \<Rightarrow>
          fst (capture_close cap code now (fst s, subprocess_wrote cap written (snd s)))
      | Errored e now \<Rightarrow>
          fst (capture_close cap (Some (uv_code e)) now (capture_error cap s)))"

definition exit_code :: "outcome \<Rightarrow> int option" where
  "exit_code out = (case out of Closed code written now \<Rightarrow> code | Errored e now \<Rightarrow> Some (uv_code e))"

definition world_at_close :: "capture \<Rightarrow> outcome \<Rightarrow> world \<Rightarrow> world" where
  "world_at_close cap out w =
     (case out of Closed code written now \<Rightarrow> subprocess_wrote cap written w | Errored e now \<Rightarrow> w)"

definition succeeded :: "capture \<Rightarrow> outcome \<Rightarrow> recorder \<times> world \<Rightarrow> bool" where
  "succeeded cap out s =
     (exit_code out = Some 0 \<and> existsSync (world_at_close cap out (snd s)) (segmentFile cap))"

definition next_capture :: "int \<Rightarrow> recorder \<times> world \<Rightarrow> (recorder \<times> world) \<times> capture option" where
  "next_capture now s =
     (if isMonitoring (fst s) then quickCheck_result now True s else recordSegment now s)"

fun session ::
  "(outcome \<times> int) list \<Rightarrow> capture option \<Rightarrow> recorder \<times> world \<Rightarrow> (recorder \<times> world) \<times> nat list" where
  "session evs None s = (s, [])"
| "session [] (Some cap) s = (s, [segmentIndex cap])"
| "session ((out, now) # evs) (Some cap) s =
     (case next_capture now (settle cap out s) of
        (s1, c) \<Rightarrow> (case session evs c s1 of (s2, is) \<Rightarrow> (s2, segmentIndex cap # is)))"

definition start_session ::
  "int \<Rightarrow> bool \<Rightarrow> int \<Rightarrow> int \<Rightarrow> recorder \<times> world \<Rightarrow> (recorder \<times> world) \<times> capture option" where
  "start_session durationMinutes isInitiallyAvailable now resumed s =
     (case startRecording_checked isInitiallyAvailable now
             (startRecording_reset durationMinutes now (fst s), snd s) of
        (s1, Some cap) \<Rightarrow> (s1, Some cap)
      | (s1, None) \<Rightarrow> next_capture resumed s1)"

definition run_session ::
  "int \<Rightarrow> bool \<Rightarrow> int \<Rightarrow> int \<Rightarrow> (outcome \<times> int) list \<Rightarrow> recorder \<times> world \<Rightarrow> (recorder \<times> world) \<times> nat list" where
  "run_session durationMinutes isInitiallyAvailable now resumed evs s =
     (case start_session durationMinutes isInitiallyAvailable now resumed s of
        (s1, c) \<Rightarrow> session evs c s1)"

subsection \<open>A session as an interleaving of callbacks\<close>

text \<open>
  Nothing in the recorder keeps two captures from running at once: the 100 ms timer
  calls \<open>recordSegment\<close> without looking at \<open>isRecording\<close>, and a poll or a probe
  verification that resolves between a successful \<open>close\<close> and that timer resumes on
  its own. A \<open>machine\<close> therefore holds the state, the closures of the captures whose
  process has not ended yet, and the indices given so far, in the order of creation. An
  \<open>event\<close> is one callback running: the end of the \<open>k\<close>-th pending capture, the
  100 ms timer, the interval body after its probe has resolved, the verification after
  a deep probe, the timer that re-arms the deep probe, a call of \<open>stop\<close>, the
  completion check. \<open>play\<close> runs any list of events, whether or not the code has armed
  the timer of each: every order the event loop can produce is among them.
\<close>

datatype event =
    CaptureCloses nat "int option" "string option" int
  | SpawnFails nat spawn_errno int
  | ContinueTimer int
  | QuickCheck int bool
  | ProbeVerified int bool
  | ProbeRearm
  | StopRequest
  | CompletionCheck string

record machine =
  current :: "recorder \<times> world"
  pending :: "capture list"
  assigned :: "nat list"

definition created :: "(recorder \<times> world) \<times> capture option \<Rightarrow> machine \<Rightarrow> machine" where
  "created res m =
     (case res of
        (s, None) \<Rightarrow> m\<lparr>current := s\<rparr>
      | (s, Some cap) \<Rightarrow>
          m\<lparr>current := s, pending := pending m @ [cap],
            assigned := assigned m @ [segmentIndex cap]\<rparr>)"

definition settled :: "nat \<Rightarrow> outcome \<Rightarrow> machine \<Rightarrow> machine" where
  "settled k out m =
     (if k < length (pending m)
      then m\<lparr>current := settle (pending m ! k) out (current m),
             pending := take k (pending m) @ drop (Suc k) (pending m)\<rparr>
      else m)"

fun play_event :: "event \<Rightarrow> machine \<Rightarrow> machine" where
  "play_event (CaptureCloses k code written now) m = settled k (Closed code written now) m"
| "play_event (SpawnFails k e now) m = settled k (Errored e now) m"
| "play_event (ContinueTimer now) m = created (recordSegment now (current m)) m"
| "play_event (QuickCheck now isAvailable) m =
     created (quickCheck_result now isAvailable (current m)) m"
| "play_event (ProbeVerified now isAvailable) m =
     created (probe_verified now isAvailable (current m)) m"
| "play_event ProbeRearm m = m\<lparr>current := probe_rearm (current m)\<rparr>"
| "play_event StopRequest m = m\<lparr>current := stop (current m)\<rparr>"
| "play_event (CompletionCheck finalOutput) m =
     (case checkCompletion finalOutput (current m) of
        None \<Rightarrow> m
      | Some (s, res) \<Rightarrow> m\<lparr>current := s\<rparr>)"

definition play :: "event list \<Rightarrow> machine \<Rightarrow> machine" where
  "play evs m = fold play_event evs m"

definition started :: "int \<Rightarrow> bool \<Rightarrow> int \<Rightarrow> recorder \<times> world \<Rightarrow> machine" where
  "started durationMinutes isInitiallyAvailable now s =
     created
       (startRecording_checked isInitiallyAvailable now
          (startRecording_reset durationMinutes now (fst s), snd s))
       \<lparr>current = s, pending = [], assigned = []\<rparr>"

section \<open>The plain retry loop of the second script\<close>

text \<open>
  The second script keeps two module-level variables and records in a \<open>while\<close> loop.
  The \<open>exit\<close> handler of its \<open>recordSegment\<close> rejects when fewer than five whole
  seconds have passed since the spawn, whatever the exit code. The loop is played over
  a list of attempt results and stops when the list is used up.
\<close>

definition targetDuration :: int where
  "targetDuration = 2 * 60"

record loop_state =
  totalRecorded :: int
  attempt :: nat

definition loop_recordSegment_exit :: "string \<Rightarrow> int \<Rightarrow> int option \<Rightarrow> int \<Rightarrow> error + (int \<times> string)" where
  "loop_recordSegment_exit filename startTime' code now =
     (let duration' = (now - startTime') div 1000
      in if duration' < 5 then Inl StreamDown else Inr (duration', filename))"

definition loop_recordSegment_error :: "error \<Rightarrow> error + (int \<times> string)" where
  "loop_recordSegment_error err = Inl err"

definition loop_iteration :: "error + (int \<times> string) \<Rightarrow> loop_state \<Rightarrow> loop_state" where
  "loop_iteration res s =
     (let s1 = (case res of
                  Inr (duration', filename) \<Rightarrow> s\<lparr>totalRecorded := totalRecorded s + duration'\<rparr>
                | Inl err \<Rightarrow> s)
      in s1\<lparr>attempt := attempt s1 + 1\<rparr>)"

fun loop_startRecording :: "(error + (int \<times> string)) list \<Rightarrow> loop_state \<Rightarrow> loop_state" where
  "loop_startRecording [] s = s"
| "loop_startRecording (res # rest) s =
     (if totalRecorded s < targetDuration then loop_startRecording rest (loop_iteration res s)
      else s)"

section \<open>Example inputs\<close>

text \<open>
  A recorder for \<open>http://host/stream\<close> writing to \<open>recordings\<close>, created at time 7 in
  an empty world, and the states it goes through in a session of two minutes: the first
  capture running (\<open>capturing\<close>, with the closure \<open>example_capture\<close>), the same with
  some bytes already written, two segments of one minute each recorded
  (\<open>two_segments\<close>), and their merge under way (\<open>merging\<close>).
\<close>

definition example_world :: world where
  "example_world =
     \<lparr>files = Map.empty, cwd = ''/app'', spawned = [], signals = [], intervals = [], nextTimer = 0\<rparr>"

definition example_recorder :: recorder where
  "example_recorder = fst (constructor ''http://host/stream'' ''recordings'' 7 True)"

definition example_capture :: capture where
  "example_capture =
     \<lparr>remainingMs = 120000, segmentIndex = 0, segmentFile = ''recordings/segment_7_0.mp4'',
      segmentStartTime = 0\<rparr>"

definition capturing :: "recorder \<times> world" where
  "capturing = fst (start_session 2 True 0 0 (example_recorder, example_world))"

definition partly_written :: "recorder \<times> world" where
  "partly_written = (fst capturing, subprocess_wrote example_capture (Some ''partial'') (snd capturing))"

definition two_segments :: "recorder \<times> world" where
  "two_segments =
     fst (run_session 2 True 0 0
            [(Closed (Some 0) (Some ''first'') 60000, 60100),
             (Closed (Some 0) (Some ''second'') 120100, 120200)]
            (example_recorder, example_world))"

definition example_merge :: merge where
  "example_merge = \<lparr>finalPath = ''recordings/out.mp4'', concatFile = ''recordings/concat_7.txt''\<rparr>"

definition merging :: "recorder \<times> world" where
  "merging = fst (mergeRecordings ''out.mp4'' (stopStreamMonitoring two_segments))"

text \<open>
  A stop request while the first capture runs: \<open>stopped\<close> is the state after
  \<open>stop()\<close>, \<open>after_stop\<close> the state after the \<open>close\<close> event of the killed process
  (ffmpeg ends with exit code 255 on \<open>SIGTERM\<close>), \<open>second_capture\<close> the closure of
  the capture that the next successful poll starts, and \<open>finished_after_stop\<close> the state
  when that capture has run for the two minutes.
\<close>

definition stopped :: "recorder \<times> world" where
  "stopped = stop partly_written"

definition after_stop :: "recorder \<times> world" where
  "after_stop = settle example_capture (Closed (Some 255) None 30000) stopped"

definition second_capture :: capture where
  "second_capture =
     \<lparr>remainingMs = 120000, segmentIndex = 0, segmentFile = ''recordings/segment_7_0.mp4'',
      segmentStartTime = 40000\<rparr>"

definition finished_after_stop :: "recorder \<times> world" where
  "finished_after_stop =
     settle second_capture (Closed (Some 0) (Some ''late'') 160000) (fst (next_capture 40000 after_stop))"

text \<open>
  What \<open>new URL\<close> does on the three strings used as stream URLs below: the first
  parses, \<open>foo:a b\<close> parses with the space kept in its path, and \<open>not a url\<close> has
  no scheme, so Node throws \<open>TypeError: Invalid URL\<close>.
\<close>

definition example_URL :: "string \<Rightarrow> url option" where
  "example_URL s =
     (if s = ''http://host/stream''
      then Some \<lparr>protocol = ''http:'', hostname = ''host'', port = [], pathname = ''/stream'', search = []\<rparr>
      else if s = ''foo:a b''
      then Some \<lparr>protocol = ''foo:'', hostname = [], port = [], pathname = ''a b'', search = []\<rparr>
      else None)"

text \<open>
  A session of three minutes in which two captures overlap: the first capture ends well
  after one minute, a deep probe's verification resolves before the 100 ms timer has
  fired and resumes, the timer then starts a capture of its own, and both end well.
\<close>

definition overlapping :: machine where
  "overlapping =
     play [CaptureCloses 0 (Some 0) (Some ''a'') 60000, ProbeVerified 60050 True,
           ContinueTimer 60100, CaptureCloses 0 (Some 0) (Some ''b'') 120000,
           CaptureCloses 0 (Some 0) (Some ''c'') 120100]
       (started 3 True 0 (example_recorder, example_world))"

text \<open>The three fields that count segments and time.\<close>

definition bookkeeping :: "recorder \<Rightarrow> recording list \<times> int \<times> int" where
  "bookkeeping r = (recordings r, recordedDurationMs r, totalDurationMs r)"

text \<open>The indices given so far are in order and none exceeds the number of segments kept.\<close>

definition in_order :: "machine \<Rightarrow> bool" where
  "in_order m =
     (sorted (assigned m) \<and>
      list_all (\<lambda>i. i \<le> length (recordings (fst (current m)))) (assigned m))"

section \<open>Properties\<close>

subsection \<open>What a session keeps invariant\<close>

lemma bookkeeping_startContinuousMonitoring:
  "bookkeeping (fst (startContinuousMonitoring s)) = bookkeeping (fst s)"
  by (cases s) (simp add: startContinuousMonitoring_def bookkeeping_def)

lemma bookkeeping_startStreamMonitoring:
  "bookkeeping (fst (startStreamMonitoring s)) = bookkeeping (fst s)"
proof (cases s)
  case (Pair r w)
  show ?thesis
  proof (cases "isMonitoring r")
    case True
    with Pair show ?thesis by (simp add: startStreamMonitoring_def)
  next
    case False
    have "bookkeeping (fst (startStreamMonitoring (r, w))) =
          bookkeeping (r\<lparr>isMonitoring := True, quickCheckInterval := Some (nextTimer w)\<rparr>)"
      using False
      by (simp add: startStreamMonitoring_def setInterval_def Let_def
          bookkeeping_startContinuousMonitoring)
    then show ?thesis using Pair by (simp add: bookkeeping_def)
  qed
qed

lemma bookkeeping_stopStreamMonitoring:
  "bookkeeping (fst (stopStreamMonitoring s)) = bookkeeping (fst s)"
  by (cases s) (simp add: stopStreamMonitoring_def bookkeeping_def Let_def split: option.splits)

lemma recordSegment_cases:
  "recordSegment now s = (s', c) \<Longrightarrow>
     bookkeeping (fst s') = bookkeeping (fst s) \<and>
     (case c of
        None \<Rightarrow> s' = s \<and> totalDurationMs (fst s) \<le> recordedDurationMs (fst s)
      | Some cap \<Rightarrow>
          recordedDurationMs (fst s) < totalDurationMs (fst s) \<and>
          segmentIndex cap = length (recordings (fst s)) \<and>
          remainingMs cap = totalDurationMs (fst s) - recordedDurationMs (fst s))"
  by (cases s) (auto simp: recordSegment_def bookkeeping_def spawn_def Let_def split: if_splits)

lemma resumeRecording_cases:
  "resumeRecording now s = (s', c) \<Longrightarrow>
     bookkeeping (fst s') = bookkeeping (fst s) \<and>
     (\<forall>cap. c = Some cap \<longrightarrow> segmentIndex cap = length (recordings (fst s)))"
proof (cases s)
  case (Pair r w)
  assume a: "resumeRecording now s = (s', c)"
  show ?thesis
  proof (cases "isRecording r \<or> totalDurationMs r \<le> recordedDurationMs r")
    case True
    with a Pair show ?thesis by (auto simp: resumeRecording_def split: if_splits)
  next
    case False
    with a Pair have "recordSegment now (stopStreamMonitoring (r, w)) = (s', c)"
      by (simp add: resumeRecording_def)
    from recordSegment_cases[OF this] show ?thesis
      using Pair bookkeeping_stopStreamMonitoring[of "(r, w)"]
      by (auto simp: bookkeeping_def split: option.splits)
  qed
qed

lemma next_capture_cases:
  "next_capture now s = (s', c) \<Longrightarrow>
     bookkeeping (fst s') = bookkeeping (fst s) \<and>
     (\<forall>cap. c = Some cap \<longrightarrow> segmentIndex cap = length (recordings (fst s)))"
proof (cases s)
  case (Pair r w)
  assume a: "next_capture now s = (s', c)"
  show ?thesis
  proof (cases "isMonitoring r")
    case False
    with a Pair have "recordSegment now s = (s', c)" by (simp add: next_capture_def)
    from recordSegment_cases[OF this] show ?thesis by (auto split: option.splits)
  next
    case True
    with a Pair have q: "quickCheck_result now True (r, w) = (s', c)" by (simp add: next_capture_def)
    show ?thesis
    proof (cases "isStreamAvailable r")
      case True
      with q Pair show ?thesis by (auto simp: quickCheck_result_def Let_def bookkeeping_def)
    next
      case False
      with q have "resumeRecording now (r\<lparr>isStreamAvailable := True, consecutiveFailures := 0, lastSuccessfulCheck := Some now\<rparr>, w) = (s', c)"
        by (simp add: quickCheck_result_def Let_def)
      from resumeRecording_cases[OF this] show ?thesis using Pair by (simp add: bookkeeping_def)
    qed
  qed
qed

lemma capture_close_cases:
  "capture_close cap code now (r, w) = (s', a) \<Longrightarrow>
     totalDurationMs (fst s') = totalDurationMs r \<and>
     (if code = Some 0 \<and> existsSync w (segmentFile cap)
      then recordings (fst s') = recordings r @
             [\<lparr>file' = segmentFile cap, duration = now - segmentStartTime cap, index = segmentIndex cap\<rparr>] \<and>
           recordedDurationMs (fst s') = recordedDurationMs r + (now - segmentStartTime cap)
      else recordings (fst s') = recordings r \<and> recordedDurationMs (fst s') = recordedDurationMs r)"
proof (cases "code = Some 0 \<and> existsSync w (segmentFile cap)")
  case True
  assume "capture_close cap code now (r, w) = (s', a)"
  with True show ?thesis by (auto simp: capture_close_def Let_def split: if_splits)
next
  case False
  assume "capture_close cap code now (r, w) = (s', a)"
  with False have "s' = startStreamMonitoring (r\<lparr>isRecording := False, isStreamAvailable := False\<rparr>, unlink_if_exists w (segmentFile cap))"
    by (auto simp: capture_close_def Let_def)
  with False show ?thesis
    using bookkeeping_startStreamMonitoring[of "(r\<lparr>isRecording := False, isStreamAvailable := False\<rparr>, unlink_if_exists w (segmentFile cap))"]
    by (simp add: bookkeeping_def)
qed

lemma capture_error_bookkeeping:
  "bookkeeping (fst (capture_error cap s)) = bookkeeping (fst s)"
proof (cases s)
  case (Pair r w)
  then show ?thesis
    using bookkeeping_startStreamMonitoring[of "(r\<lparr>isRecording := False, isStreamAvailable := False\<rparr>, w)"]
    by (simp add: capture_error_def Let_def bookkeeping_def)
qed

lemma settle_cases:
  "totalDurationMs (fst (settle cap out s)) = totalDurationMs (fst s) \<and>
   ((recordings (fst (settle cap out s)) = recordings (fst s) \<and>
     recordedDurationMs (fst (settle cap out s)) = recordedDurationMs (fst s)) \<or>
    (\<exists>f d. recordings (fst (settle cap out s)) =
              recordings (fst s) @ [\<lparr>file' = f, duration = d, index = segmentIndex cap\<rparr>] \<and>
            recordedDurationMs (fst (settle cap out s)) = recordedDurationMs (fst s) + d))"
proof -
  have close: "totalDurationMs (fst (fst (capture_close cap code now t))) = totalDurationMs (fst t) \<and>
   ((recordings (fst (fst (capture_close cap code now t))) = recordings (fst t) \<and>
     recordedDurationMs (fst (fst (capture_close cap code now t))) = recordedDurationMs (fst t)) \<or>
    (\<exists>f d. recordings (fst (fst (capture_close cap code now t))) =
              recordings (fst t) @ [\<lparr>file' = f, duration = d, index = segmentIndex cap\<rparr>] \<and>
            recordedDurationMs (fst (fst (capture_close cap code now t))) =
              recordedDurationMs (fst t) + d))" for code now t
  proof -
    obtain s' a where c: "capture_close cap code now (fst t, snd t) = (s', a)"
      by (cases "capture_close cap code now (fst t, snd t)")
    from capture_close_cases[OF c] c show ?thesis
      by (auto split: if_splits)
  qed
  show ?thesis
  proof (cases out)
    case (Closed code written now)
    then show ?thesis
      using close[of code now "(fst s, subprocess_wrote cap written (snd s))"]
      by (simp add: settle_def)
  next
    case (Errored e now)
    then show ?thesis
      using close[of "Some (uv_code e)" now "capture_error cap s"]
        capture_error_bookkeeping[of cap s]
      by (simp add: settle_def bookkeeping_def)
  qed
qed

lemma session_invariant:
  "map index (recordings (fst s)) = [0..<length (recordings (fst s))] \<Longrightarrow>
   recordedDurationMs (fst s) = sum_list (map duration (recordings (fst s))) \<Longrightarrow>
   (\<forall>cap. c = Some cap \<longrightarrow> segmentIndex cap = length (recordings (fst s))) \<Longrightarrow>
   map index (recordings (fst (fst (session evs c s)))) =
     [0..<length (recordings (fst (fst (session evs c s))))] \<and>
   recordedDurationMs (fst (fst (session evs c s))) =
     sum_list (map duration (recordings (fst (fst (session evs c s))))) \<and>
   totalDurationMs (fst (fst (session evs c s))) = totalDurationMs (fst s) \<and>
   sorted (snd (session evs c s)) \<and>
   (\<forall>i \<in> set (snd (session evs c s)). length (recordings (fst s)) \<le> i)"
proof (induction evs c s rule: session.induct)
  case (1 evs s)
  then show ?case by simp
next
  case (2 cap s)
  then show ?case by simp
next
  case (3 out now evs cap s)
  obtain s1 c1 where n: "next_capture now (settle cap out s) = (s1, c1)"
    by (cases "next_capture now (settle cap out s)")
  obtain s2 "is" where r: "session evs c1 s1 = (s2, is)"
    by (cases "session evs c1 s1")
  from next_capture_cases[OF n]
  have b: "bookkeeping (fst s1) = bookkeeping (fst (settle cap out s))"
    and ci: "\<forall>cap'. c1 = Some cap' \<longrightarrow> segmentIndex cap' = length (recordings (fst (settle cap out s)))"
    by auto
  from 3(4) have capi: "segmentIndex cap = length (recordings (fst s))" by simp
  have st: "totalDurationMs (fst s1) = totalDurationMs (fst s)"
    and len: "length (recordings (fst s)) \<le> length (recordings (fst s1))"
    and i1: "map index (recordings (fst s1)) = [0..<length (recordings (fst s1))]"
    and s1: "recordedDurationMs (fst s1) = sum_list (map duration (recordings (fst s1)))"
    using settle_cases[of cap out s] b 3(2) 3(3) capi
    by (auto simp: bookkeeping_def)
  have ci': "\<forall>cap'. c1 = Some cap' \<longrightarrow> segmentIndex cap' = length (recordings (fst s1))"
    using ci b by (simp add: bookkeeping_def)
  have ih: "map index (recordings (fst (fst (session evs c1 s1)))) =
     [0..<length (recordings (fst (fst (session evs c1 s1))))] \<and>
   recordedDurationMs (fst (fst (session evs c1 s1))) =
     sum_list (map duration (recordings (fst (fst (session evs c1 s1))))) \<and>
   totalDurationMs (fst (fst (session evs c1 s1))) = totalDurationMs (fst s1) \<and>
   sorted (snd (session evs c1 s1)) \<and>
   (\<forall>i \<in> set (snd (session evs c1 s1)). length (recordings (fst s1)) \<le> i)"
    using 3(1)[OF n[symmetric] i1 s1 ci'] .
  have eq: "session ((out, now) # evs) (Some cap) s = (s2, segmentIndex cap # is)"
    using n r by simp
  show ?case using ih r eq st len capi by auto
qed

lemma start_session_cases:
  "start_session d a now res s = (s1, c) \<Longrightarrow>
     recordings (fst s1) = [] \<and> recordedDurationMs (fst s1) = 0 \<and>
     totalDurationMs (fst s1) = d * 60 * 1000 \<and>
     (\<forall>cap. c = Some cap \<longrightarrow> segmentIndex cap = 0)"
proof -
  assume a: "start_session d a now res s = (s1, c)"
  let ?s0 = "(startRecording_reset d now (fst s), snd s)"
  obtain s2 c2 where k: "startRecording_checked a now ?s0 = (s2, c2)"
    by (cases "startRecording_checked a now ?s0")
  have b0: "bookkeeping (fst ?s0) = ([], 0, d * 60 * 1000)"
    by (simp add: bookkeeping_def startRecording_reset_def)
  have b2: "bookkeeping (fst s2) = ([], 0, d * 60 * 1000) \<and> (\<forall>cap. c2 = Some cap \<longrightarrow> segmentIndex cap = 0)"
  proof (cases a)
    case True
    with k have "recordSegment now (startRecording_reset d now (fst s)\<lparr>isStreamAvailable := True\<rparr>, snd s) = (s2, c2)"
      by (simp add: startRecording_checked_def Let_def)
    from recordSegment_cases[OF this] show ?thesis
      by (auto simp: bookkeeping_def startRecording_reset_def split: option.splits)
  next
    case False
    with k have "s2 = startStreamMonitoring (startRecording_reset d now (fst s)\<lparr>isStreamAvailable := False\<rparr>, snd s)" and "c2 = None"
      by (auto simp: startRecording_checked_def Let_def)
    then show ?thesis
      using bookkeeping_startStreamMonitoring[of "(startRecording_reset d now (fst s)\<lparr>isStreamAvailable := False\<rparr>, snd s)"]
      by (simp add: bookkeeping_def startRecording_reset_def)
  qed
  show ?thesis
  proof (cases c2)
    case (Some cap)
    with a k have "s1 = s2" "c = c2" by (auto simp: start_session_def)
    with b2 show ?thesis by (simp add: bookkeeping_def)
  next
    case None
    with a k have "next_capture res s2 = (s1, c)" by (simp add: start_session_def)
    from next_capture_cases[OF this] b2 show ?thesis by (simp add: bookkeeping_def)
  qed
qed

lemma run_session_invariant:
  "map index (recordings (fst (fst (run_session d a now res evs s)))) =
     [0..<length (recordings (fst (fst (run_session d a now res evs s))))] \<and>
   recordedDurationMs (fst (fst (run_session d a now res evs s))) =
     sum_list (map duration (recordings (fst (fst (run_session d a now res evs s))))) \<and>
   totalDurationMs (fst (fst (run_session d a now res evs s))) = d * 60 * 1000 \<and>
   sorted (snd (run_session d a now res evs s))"
proof -
  obtain s1 c where st: "start_session d a now res s = (s1, c)"
    by (cases "start_session d a now res s")
  from start_session_cases[OF st]
  have i: "map index (recordings (fst s1)) = [0..<length (recordings (fst s1))]"
    and r: "recordedDurationMs (fst s1) = sum_list (map duration (recordings (fst s1)))"
    and t: "totalDurationMs (fst s1) = d * 60 * 1000"
    and c: "\<forall>cap. c = Some cap \<longrightarrow> segmentIndex cap = length (recordings (fst s1))"
    by simp_all
  have e: "run_session d a now res evs s = session evs c s1"
    using st by (simp add: run_session_def)
  from session_invariant[OF i r c, of evs] show ?thesis
    unfolding e using t by simp
qed

lemma capture_close_Continue:
  assumes "capture_close cap code now s = (s', Continue)"
  shows "recordedDurationMs (fst s') < totalDurationMs (fst s')"
proof (cases s)
  case (Pair r w)
  show ?thesis
  proof (cases "code = Some 0 \<and> existsSync w (segmentFile cap)")
    case True
    with assms Pair show ?thesis
      by (auto simp: capture_close_def Let_def split: if_splits)
  next
    case False
    with assms Pair show ?thesis
      by (auto simp: capture_close_def Let_def)
  qed
qed

lemma recordSegment_starts:
  assumes "recordedDurationMs (fst s) < totalDurationMs (fst s)"
  shows "\<exists>s' cap. recordSegment now s = (s', Some cap) \<and>
           remainingMs cap = totalDurationMs (fst s) - recordedDurationMs (fst s) \<and>
           last (spawned (snd s')) = (''ffmpeg'', ffmpegArgs (fst s') (remainingMs cap) (segmentFile cap)) \<and>
           ffmpegArgs (fst s') (remainingMs cap) (segmentFile cap) ! 16 = ''-t'' \<and>
           ffmpegArgs (fst s') (remainingMs cap) (segmentFile cap) ! 17 =
             string_of_int \<lceil>rat_of_int (remainingMs cap) / 1000\<rceil>"
  using assms
  by (cases s) (simp add: recordSegment_def spawn_def Let_def ffmpegArgs_def)

lemma recordSegment_complete:
  assumes "totalDurationMs (fst s) \<le> recordedDurationMs (fst s)"
  shows "recordSegment now s = (s, None) \<and> resumeRecording now s = (s, None)"
  using assms by (cases s) (simp add: recordSegment_def resumeRecording_def)

lemma checkCompletion_guard:
  assumes "checkCompletion out s = Some x"
  shows "totalDurationMs (fst s) \<le> recordedDurationMs (fst s)"
  using assms by (cases s) (simp add: checkCompletion_def split: if_splits)

lemma ex_continue: "snd (capture_close example_capture (Some 0) 60000 partly_written) = Continue"
  by code_simp
lemma ex_remaining:
  "totalDurationMs (fst (fst (capture_close example_capture (Some 0) 60000 partly_written))) -
   recordedDurationMs (fst (fst (capture_close example_capture (Some 0) 60000 partly_written))) = 60000"
  by code_simp
lemma ex_complete: "totalDurationMs (fst two_segments) = 120000 \<and> recordedDurationMs (fst two_segments) = 120000"
  by code_simp
lemma ex_merge: "map_option snd (checkCompletion ''out.mp4'' two_segments) = Some (Inr (Spawned example_merge))"
  by code_simp

subsection \<open>What every interleaving keeps invariant\<close>

lemma quickCheck_result_cases:
  "quickCheck_result now b s = (s', c) \<Longrightarrow>
     bookkeeping (fst s') = bookkeeping (fst s) \<and>
     (\<forall>cap. c = Some cap \<longrightarrow> segmentIndex cap = length (recordings (fst s)))"
proof (cases s)
  case (Pair r w)
  assume q: "quickCheck_result now b s = (s', c)"
  show ?thesis
  proof (cases "b \<and> \<not> isStreamAvailable r")
    case True
    with q Pair have "resumeRecording now
        (r\<lparr>isStreamAvailable := True, consecutiveFailures := 0, lastSuccessfulCheck := Some now\<rparr>, w) = (s', c)"
      by (simp add: quickCheck_result_def Let_def)
    from resumeRecording_cases[OF this] show ?thesis using Pair by (simp add: bookkeeping_def)
  next
    case False
    with q Pair show ?thesis
      by (auto simp: quickCheck_result_def Let_def bookkeeping_def split: if_splits)
  qed
qed

lemma probe_verified_cases:
  "probe_verified now b s = (s', c) \<Longrightarrow>
     bookkeeping (fst s') = bookkeeping (fst s) \<and>
     (\<forall>cap. c = Some cap \<longrightarrow> segmentIndex cap = length (recordings (fst s)))"
proof (cases s)
  case (Pair r w)
  assume q: "probe_verified now b s = (s', c)"
  show ?thesis
  proof (cases "b \<and> \<not> isRecording r")
    case True
    with q Pair have "resumeRecording now (r\<lparr>isStreamAvailable := True\<rparr>, w) = (s', c)"
      by (simp add: probe_verified_def)
    from resumeRecording_cases[OF this] show ?thesis using Pair by (simp add: bookkeeping_def)
  next
    case False
    with q Pair show ?thesis by (auto simp: probe_verified_def)
  qed
qed

lemma bookkeeping_probe_rearm: "bookkeeping (fst (probe_rearm s)) = bookkeeping (fst s)"
  using bookkeeping_startContinuousMonitoring[of s]
  by (cases s) (simp add: probe_rearm_def)

lemma bookkeeping_stop: "bookkeeping (fst (stop s)) = bookkeeping (fst s)"
proof -
  obtain r w where e: "stopStreamMonitoring s = (r, w)" by (cases "stopStreamMonitoring s")
  have "bookkeeping r = bookkeeping (fst s)"
    using bookkeeping_stopStreamMonitoring[of s] e by simp
  then show ?thesis
    using e by (simp add: stop_def bookkeeping_def split: option.splits)
qed

lemma length_mergeRecordings:
  "length (recordings (fst (fst (mergeRecordings name s)))) = length (recordings (fst s))"
  by (cases s)
     (simp add: mergeRecordings_def renameSync_def Let_def spawn_def split: option.splits)

lemma length_checkCompletion:
  "checkCompletion name s = Some (s', res) \<Longrightarrow>
     length (recordings (fst s')) = length (recordings (fst s))"
proof -
  assume a: "checkCompletion name s = Some (s', res)"
  then have "mergeRecordings name (stopStreamMonitoring s) = (s', res)"
    by (cases s) (simp add: checkCompletion_def split: if_splits)
  then have "s' = fst (mergeRecordings name (stopStreamMonitoring s))" by simp
  then show ?thesis
    using length_mergeRecordings[of name "stopStreamMonitoring s"]
      bookkeeping_stopStreamMonitoring[of s]
    by (simp add: bookkeeping_def)
qed

lemma length_settle: "length (recordings (fst s)) \<le> length (recordings (fst (settle cap out s)))"
  using settle_cases[of cap out s] by auto

lemma in_order_grow:
  assumes "in_order m" and "length (recordings (fst (current m))) \<le> length (recordings (fst s))"
  shows "in_order (m\<lparr>current := s\<rparr>)"
  using assms by (auto simp: in_order_def list_all_iff)

lemma in_order_created:
  assumes "in_order m"
    and "bookkeeping (fst s) = bookkeeping (fst (current m))"
    and "\<forall>cap. c = Some cap \<longrightarrow> segmentIndex cap = length (recordings (fst (current m)))"
  shows "in_order (created (s, c) m)"
proof (cases c)
  case None
  with assms show ?thesis
    by (auto simp: created_def in_order_def bookkeeping_def list_all_iff)
next
  case (Some cap)
  with assms show ?thesis
    by (auto simp: created_def in_order_def bookkeeping_def list_all_iff sorted_append)
qed

lemma in_order_settled: "in_order m \<Longrightarrow> in_order (settled k out m)"
proof -
  assume a: "in_order m"
  show ?thesis
  proof (cases "k < length (pending m)")
    case True
    have "in_order (m\<lparr>current := settle (pending m ! k) out (current m)\<rparr>)"
      using in_order_grow[OF a length_settle] .
    then show ?thesis using True by (simp add: settled_def in_order_def)
  next
    case False
    with a show ?thesis by (simp add: settled_def)
  qed
qed

lemma in_order_play_event: "in_order m \<Longrightarrow> in_order (play_event e m)"
proof (cases e)
  case (CaptureCloses k code written now)
  assume "in_order m"
  then show ?thesis using CaptureCloses by (simp add: in_order_settled)
next
  case (SpawnFails k e' now)
  assume "in_order m"
  then show ?thesis using SpawnFails by (simp add: in_order_settled)
next
  case (ContinueTimer now)
  assume a: "in_order m"
  obtain s c where r: "recordSegment now (current m) = (s, c)"
    by (cases "recordSegment now (current m)")
  from recordSegment_cases[OF r] have "bookkeeping (fst s) = bookkeeping (fst (current m))"
    and "\<forall>cap. c = Some cap \<longrightarrow> segmentIndex cap = length (recordings (fst (current m)))"
    by (auto split: option.splits)
  from in_order_created[OF a this] show ?thesis using ContinueTimer r by simp
next
  case (QuickCheck now b)
  assume a: "in_order m"
  obtain s c where r: "quickCheck_result now b (current m) = (s, c)"
    by (cases "quickCheck_result now b (current m)")
  from quickCheck_result_cases[OF r] have "bookkeeping (fst s) = bookkeeping (fst (current m))"
    and "\<forall>cap. c = Some cap \<longrightarrow> segmentIndex cap = length (recordings (fst (current m)))"
    by auto
  from in_order_created[OF a this] show ?thesis using QuickCheck r by simp
next
  case (ProbeVerified now b)
  assume a: "in_order m"
  obtain s c where r: "probe_verified now b (current m) = (s, c)"
    by (cases "probe_verified now b (current m)")
  from probe_verified_cases[OF r] have "bookkeeping (fst s) = bookkeeping (fst (current m))"
    and "\<forall>cap. c = Some cap \<longrightarrow> segmentIndex cap = length (recordings (fst (current m)))"
    by auto
  from in_order_created[OF a this] show ?thesis using ProbeVerified r by simp
next
  case ProbeRearm
  assume a: "in_order m"
  have "length (recordings (fst (current m))) \<le> length (recordings (fst (probe_rearm (current m))))"
    using bookkeeping_probe_rearm[of "current m"] by (simp add: bookkeeping_def)
  from in_order_grow[OF a this] show ?thesis using ProbeRearm by simp
next
  case StopRequest
  assume a: "in_order m"
  have "length (recordings (fst (current m))) \<le> length (recordings (fst (stop (current m))))"
    using bookkeeping_stop[of "current m"] by (simp add: bookkeeping_def)
  from in_order_grow[OF a this] show ?thesis using StopRequest by simp
next
  case (CompletionCheck name)
  assume a: "in_order m"
  show ?thesis
  proof (cases "checkCompletion name (current m)")
    case None
    with a CompletionCheck show ?thesis by simp
  next
    case (Some x)
    obtain s res where x: "x = (s, res)" by (cases x)
    have "length (recordings (fst (current m))) \<le> length (recordings (fst s))"
      using length_checkCompletion[of name "current m" s res] Some x by simp
    from in_order_grow[OF a this] show ?thesis using CompletionCheck Some x by simp
  qed
qed

lemma in_order_play: "in_order m \<Longrightarrow> in_order (play evs m)"
  unfolding play_def by (induction evs arbitrary: m) (simp_all add: in_order_play_event)

lemma in_order_started: "in_order (started d a now s)"
proof -
  let ?m = "\<lparr>current = (startRecording_reset d now (fst s), snd s), pending = [], assigned = []\<rparr>"
  have i: "in_order ?m" by (simp add: in_order_def)
  obtain s1 c where k: "startRecording_checked a now (startRecording_reset d now (fst s), snd s) = (s1, c)"
    by (cases "startRecording_checked a now (startRecording_reset d now (fst s), snd s)")
  have "bookkeeping (fst s1) = bookkeeping (fst (current ?m)) \<and>
        (\<forall>cap. c = Some cap \<longrightarrow> segmentIndex cap = length (recordings (fst (current ?m))))"
  proof (cases a)
    case True
    with k have "recordSegment now (startRecording_reset d now (fst s)\<lparr>isStreamAvailable := True\<rparr>, snd s) = (s1, c)"
      by (simp add: startRecording_checked_def Let_def)
    from recordSegment_cases[OF this] show ?thesis
      by (auto simp: bookkeeping_def split: option.splits)
  next
    case False
    with k have "s1 = startStreamMonitoring (startRecording_reset d now (fst s)\<lparr>isStreamAvailable := False\<rparr>, snd s)" and "c = None"
      by (auto simp: startRecording_checked_def Let_def)
    then show ?thesis
      using bookkeeping_startStreamMonitoring[of "(startRecording_reset d now (fst s)\<lparr>isStreamAvailable := False\<rparr>, snd s)"]
      by (simp add: bookkeeping_def)
  qed
  then have "in_order (created (s1, c) ?m)" using in_order_created[OF i] by blast
  moreover have "created (s1, c) \<lparr>current = s, pending = [], assigned = []\<rparr> = created (s1, c) ?m"
    by (cases c) (simp_all add: created_def)
  ultimately show ?thesis using k by (simp add: started_def)
qed

subsection \<open>Merging\<close>

lemma mergeRecordings_error_empty:
  "snd (mergeRecordings name (r, w)) = Inl NoRecordingsToMerge \<longleftrightarrow> recordings r = []"
  by (auto simp: mergeRecordings_def renameSync_def Let_def spawn_def split: option.splits)

text \<open>
  C7. \<open>mergeRecordings\<close> on an empty list of recordings throws the error
  ``No recordings to merge'', which no other path of the merge produces, and leaves the
  recorder and the whole world as they were: no manifest is written, no file is created
  or deleted, and no process is spawned.
\<close>

theorem mergeRecordings_empty:
  assumes "recordings r = []"
  shows "mergeRecordings name (r, w) = ((r, w), Inl NoRecordingsToMerge) \<and>
         NoRecordingsToMerge \<noteq> MergeFailed code \<and> NoRecordingsToMerge \<noteq> ENOENT p"
  using assms by (simp add: mergeRecordings_def)

theorem mergeRecordings_empty_witness:
  "recordings example_recorder = [] \<and>
   mergeRecordings ''out.mp4'' (example_recorder, example_world) =
     ((example_recorder, example_world), Inl NoRecordingsToMerge)"
  using mergeRecordings_empty [of example_recorder "''out.mp4''" example_world]
  by (simp add: example_recorder_def constructor_def)

text \<open>
  C8. \<open>mergeRecordings\<close> on a list of exactly one segment whose file exists renames
  that file to the final path: the final path then holds the bytes of the segment, the
  segment's own path is gone (unless it is the final path), nothing else in the file
  system changes, and no process is spawned.
\<close>

theorem mergeRecordings_single:
  assumes "recordings r = [seg]" and "files w (file' seg) = Some bytes"
  shows "snd (mergeRecordings name (r, w)) = Inr (Moved (path_join (outputDir r) name)) \<and>
         files (snd (fst (mergeRecordings name (r, w)))) (path_join (outputDir r) name) = Some bytes \<and>
         (file' seg \<noteq> path_join (outputDir r) name \<longrightarrow>
            files (snd (fst (mergeRecordings name (r, w)))) (file' seg) = None) \<and>
         (\<forall>p. p \<noteq> file' seg \<and> p \<noteq> path_join (outputDir r) name \<longrightarrow>
            files (snd (fst (mergeRecordings name (r, w)))) p = files w p) \<and>
         spawned (snd (fst (mergeRecordings name (r, w)))) = spawned w"
  using assms by (simp add: mergeRecordings_def renameSync_def Let_def)

theorem mergeRecordings_single_witness:
  "recordings (example_recorder\<lparr>recordings := [\<lparr>file' = ''recordings/segment_7_0.mp4'', duration = 120000, index = 0\<rparr>]\<rparr>) =
     [\<lparr>file' = ''recordings/segment_7_0.mp4'', duration = 120000, index = 0\<rparr>] \<and>
   files (writeFileSync example_world ''recordings/segment_7_0.mp4'' ''bytes'')
     (file' \<lparr>file' = ''recordings/segment_7_0.mp4'', duration = 120000, index = 0\<rparr>) = Some ''bytes'' \<and>
   files (snd (fst (mergeRecordings ''out.mp4''
     (example_recorder\<lparr>recordings := [\<lparr>file' = ''recordings/segment_7_0.mp4'', duration = 120000, index = 0\<rparr>]\<rparr>,
      writeFileSync example_world ''recordings/segment_7_0.mp4'' ''bytes''))))
     ''recordings/out.mp4'' = Some ''bytes'' \<and>
   files (snd (fst (mergeRecordings ''out.mp4''
     (example_recorder\<lparr>recordings := [\<lparr>file' = ''recordings/segment_7_0.mp4'', duration = 120000, index = 0\<rparr>]\<rparr>,
      writeFileSync example_world ''recordings/segment_7_0.mp4'' ''bytes''))))
     ''recordings/segment_7_0.mp4'' = None"
  using mergeRecordings_single
    [of "example_recorder\<lparr>recordings := [\<lparr>file' = ''recordings/segment_7_0.mp4'', duration = 120000, index = 0\<rparr>]\<rparr>"
        "\<lparr>file' = ''recordings/segment_7_0.mp4'', duration = 120000, index = 0\<rparr>"
        "writeFileSync example_world ''recordings/segment_7_0.mp4'' ''bytes''" "''bytes''" "''out.mp4''"]
  by (simp add: example_recorder_def constructor_def writeFileSync_def path_join_def)

subsection \<open>Reporting\<close>

text \<open>
  C10. On a recorder on which \<open>startRecording\<close> has never been called,
  \<open>totalDurationMs\<close> is 0 and the \<open>progress\<close> of \<open>getStatus\<close> is \<open>NaN\<close>, the
  result of the unguarded division \<open>0 / 0\<close>: not a finite percentage.
\<close>

theorem getStatus_progress_NaN:
  "totalDurationMs (fst (constructor url' dir now dirExists)) = 0 \<and>
   progress (getStatus (fst (constructor url' dir now dirExists))) = NaN \<and>
   (\<forall>q. progress (getStatus (fst (constructor url' dir now dirExists))) \<noteq> Num q)"
  by (simp add: constructor_def getStatus_def js_div_def js_times_def js_floor_def)

subsection \<open>What the two failure handlers and the merge cleanup do\<close>

text \<open>
  Both handlers of a capture that fails leave the segment list and the recorded duration
  as they are and end with monitoring switched on. The failure branch of the \<open>close\<close>
  handler leaves no file at the destination; the \<open>error\<close> handler on its own does not
  touch the file system, and the \<open>close\<close> event that follows it after a failed spawn
  does. The \<open>close\<close> handler of the merge process removes the file of every
  recording, whatever the exit code.
\<close>

lemma startStreamMonitoring_on: "isMonitoring (fst (startStreamMonitoring s))"
  by (cases s)
     (simp add: startStreamMonitoring_def startContinuousMonitoring_def setInterval_def
       spawn_def Let_def)

lemma startStreamMonitoring_files: "files (snd (startStreamMonitoring s)) = files (snd s)"
  by (cases s)
     (simp add: startStreamMonitoring_def startContinuousMonitoring_def setInterval_def
       spawn_def Let_def)

lemma capture_close_failure:
  assumes "\<not> (code = Some 0 \<and> existsSync w (segmentFile cap))"
  shows "recordings (fst (fst (capture_close cap code now (r, w)))) = recordings r \<and>
         recordedDurationMs (fst (fst (capture_close cap code now (r, w)))) = recordedDurationMs r \<and>
         isMonitoring (fst (fst (capture_close cap code now (r, w)))) \<and>
         files (snd (fst (capture_close cap code now (r, w)))) (segmentFile cap) = None"
proof -
  let ?s = "(r\<lparr>isRecording := False, isStreamAvailable := False\<rparr>, unlink_if_exists w (segmentFile cap))"
  have e: "fst (capture_close cap code now (r, w)) = startStreamMonitoring ?s"
    using assms by (auto simp: capture_close_def Let_def)
  have f: "files (unlink_if_exists w (segmentFile cap)) (segmentFile cap) = None"
    by (simp add: unlink_if_exists_def existsSync_def remove_file_def)
  show ?thesis
    unfolding e
    using bookkeeping_startStreamMonitoring[of ?s] startStreamMonitoring_on[of ?s]
      startStreamMonitoring_files[of ?s] f
    by (simp add: bookkeeping_def)
qed

lemma capture_error_failure:
  "recordings (fst (capture_error cap s)) = recordings (fst s) \<and>
   recordedDurationMs (fst (capture_error cap s)) = recordedDurationMs (fst s) \<and>
   isMonitoring (fst (capture_error cap s)) \<and>
   files (snd (capture_error cap s)) = files (snd s)"
proof (cases s)
  case (Pair r w)
  let ?s = "(r\<lparr>isRecording := False, isStreamAvailable := False\<rparr>, w)"
  have e: "capture_error cap s = startStreamMonitoring ?s"
    using Pair by (simp add: capture_error_def Let_def)
  show ?thesis
    unfolding e
    using bookkeeping_startStreamMonitoring[of ?s] startStreamMonitoring_on[of ?s]
      startStreamMonitoring_files[of ?s] Pair
    by (simp add: bookkeeping_def)
qed

lemma fold_unlink_files:
  "files (fold (\<lambda>recording w'. unlink_if_exists w' (file' recording)) rs w) p =
     (if p \<in> file' ` set rs then None else files w p)"
proof (induction rs arbitrary: w)
  case Nil
  then show ?case by simp
next
  case (Cons x xs)
  have "files (unlink_if_exists w (file' x)) p = (if p = file' x then None else files w p)"
    by (auto simp: unlink_if_exists_def existsSync_def remove_file_def)
  with Cons show ?case by auto
qed

lemma merge_close_removes_inputs:
  assumes "files w (concatFile m) \<noteq> None" and "x \<in> set (recordings r)"
  shows "files (snd (fst (merge_close m code (r, w)))) (file' x) = None"
  using assms
  by (auto simp: merge_close_def unlinkSync_def Let_def fold_unlink_files)

lemma startStreamMonitoring_flags:
  "isRecording (fst (startStreamMonitoring s)) = isRecording (fst s) \<and>
   isStreamAvailable (fst (startStreamMonitoring s)) = isStreamAvailable (fst s)"
  by (cases s)
     (simp add: startStreamMonitoring_def startContinuousMonitoring_def setInterval_def
       spawn_def Let_def)

lemma capture_close_failure_flags:
  assumes "\<not> (code = Some 0 \<and> existsSync w (segmentFile cap))"
  shows "\<not> isRecording (fst (fst (capture_close cap code now (r, w)))) \<and>
         \<not> isStreamAvailable (fst (fst (capture_close cap code now (r, w))))"
proof -
  let ?s = "(r\<lparr>isRecording := False, isStreamAvailable := False\<rparr>, unlink_if_exists w (segmentFile cap))"
  have e: "fst (capture_close cap code now (r, w)) = startStreamMonitoring ?s"
    using assms by (auto simp: capture_close_def Let_def)
  show ?thesis unfolding e using startStreamMonitoring_flags[of ?s] by simp
qed

lemma uv_code_nonzero: "uv_code e \<noteq> 0"
  by (cases e) (simp_all add: uv_code_def)

lemma settle_failed:
  assumes "\<not> succeeded cap out s"
  shows "bookkeeping (fst (settle cap out s)) = bookkeeping (fst s) \<and>
         isMonitoring (fst (settle cap out s)) \<and>
         \<not> isRecording (fst (settle cap out s)) \<and>
         \<not> isStreamAvailable (fst (settle cap out s)) \<and>
         files (snd (settle cap out s)) (segmentFile cap) = None"
proof (cases out)
  case (Closed code written now)
  let ?w = "subprocess_wrote cap written (snd s)"
  have f: "\<not> (code = Some 0 \<and> existsSync ?w (segmentFile cap))"
    using assms Closed by (simp add: succeeded_def exit_code_def world_at_close_def)
  have t: "totalDurationMs (fst (settle cap out s)) = totalDurationMs (fst s)"
    using settle_cases[of cap out s] by simp
  show ?thesis
    using capture_close_failure[OF f, of now "fst s"] capture_close_failure_flags[OF f, of now "fst s"] t
    by (simp add: settle_def Closed bookkeeping_def)
next
  case (Errored e now)
  let ?t = "capture_error cap s"
  have f: "\<not> (Some (uv_code e) = Some 0 \<and> existsSync (snd ?t) (segmentFile cap))"
    using uv_code_nonzero[of e] by simp
  have t: "totalDurationMs (fst (settle cap out s)) = totalDurationMs (fst s)"
    using settle_cases[of cap out s] by simp
  have p: "capture_close cap (Some (uv_code e)) now ?t =
           capture_close cap (Some (uv_code e)) now (fst ?t, snd ?t)" by simp
  show ?thesis
    using capture_close_failure[OF f, of now "fst ?t"] capture_close_failure_flags[OF f, of now "fst ?t"]
      capture_error_failure[of cap s] t
    by (simp add: settle_def Errored bookkeeping_def)
qed

lemma resume_starts:
  assumes "\<not> isRecording (fst s)" and "recordedDurationMs (fst s) < totalDurationMs (fst s)"
  shows "\<exists>s' cap. resumeRecording now s = (s', Some cap) \<and>
           segmentIndex cap = length (recordings (fst s))"
proof -
  have b: "bookkeeping (fst (stopStreamMonitoring s)) = bookkeeping (fst s)"
    by (rule bookkeeping_stopStreamMonitoring)
  then have "recordedDurationMs (fst (stopStreamMonitoring s)) < totalDurationMs (fst (stopStreamMonitoring s))"
    using assms(2) by (simp add: bookkeeping_def)
  from recordSegment_starts[OF this, of now]
  obtain s' cap where r: "recordSegment now (stopStreamMonitoring s) = (s', Some cap)" by blast
  have e: "resumeRecording now s = (s', Some cap)"
    using assms r by (cases s) (simp add: resumeRecording_def)
  from resumeRecording_cases[OF e] e show ?thesis by blast
qed

lemma next_capture_after_failure:
  assumes "\<not> succeeded cap out s" and "recordedDurationMs (fst s) < totalDurationMs (fst s)"
  shows "(\<exists>s' cap'. next_capture now (settle cap out s) = (s', Some cap') \<and>
            segmentIndex cap' = length (recordings (fst s))) \<and>
         (\<exists>s' cap'. probe_verified now True (settle cap out s) = (s', Some cap') \<and>
            segmentIndex cap' = length (recordings (fst s)))"
proof -
  obtain r w where p: "settle cap out s = (r, w)" by (cases "settle cap out s")
  from settle_failed[OF assms(1)] p
  have b: "bookkeeping r = bookkeeping (fst s)" and m: "isMonitoring r"
    and nr: "\<not> isRecording r" and na: "\<not> isStreamAvailable r" by simp_all
  have lt: "recordedDurationMs r < totalDurationMs r" and len: "length (recordings r) = length (recordings (fst s))"
    using b assms(2) by (simp_all add: bookkeeping_def)
  let ?q = "(r\<lparr>isStreamAvailable := True, consecutiveFailures := 0, lastSuccessfulCheck := Some now\<rparr>, w)"
  have "next_capture now (r, w) = resumeRecording now ?q"
    using m na by (simp add: next_capture_def quickCheck_result_def Let_def)
  moreover have "\<exists>s' cap'. resumeRecording now ?q = (s', Some cap') \<and> segmentIndex cap' = length (recordings (fst ?q))"
    using resume_starts[of ?q now] nr lt by simp
  ultimately have 1: "\<exists>s' cap'. next_capture now (settle cap out s) = (s', Some cap') \<and>
            segmentIndex cap' = length (recordings (fst s))"
    using p len by simp
  let ?v = "(r\<lparr>isStreamAvailable := True\<rparr>, w)"
  have "probe_verified now True (r, w) = resumeRecording now ?v"
    using nr by (simp add: probe_verified_def)
  moreover have "\<exists>s' cap'. resumeRecording now ?v = (s', Some cap') \<and> segmentIndex cap' = length (recordings (fst ?v))"
    using resume_starts[of ?v now] nr lt by simp
  ultimately have 2: "\<exists>s' cap'. probe_verified now True (settle cap out s) = (s', Some cap') \<and>
            segmentIndex cap' = length (recordings (fst s))"
    using p len by simp
  from 1 2 show ?thesis by blast
qed

text \<open>
  Captures that overlap are given the same index, and both can be kept: in
  \<open>overlapping\<close> the indices given are 0, 1, 1, and so are those of the segments kept.
\<close>

lemma overlapping_captures_share_an_index:
  "assigned overlapping = [0, 1, 1] \<and>
   map index (recordings (fst (current overlapping))) = [0, 1, 1]"
  by code_simp

lemma ex_capturing:
  "segmentIndex example_capture = length (recordings (fst capturing)) \<and>
   recordedDurationMs (fst capturing) < totalDurationMs (fst capturing) \<and>
   snd (recordSegment 0 capturing) = Some example_capture"
  by code_simp

lemma ex_not_succeeded:
  "\<not> succeeded example_capture (Errored UV_ENOENT 10) capturing \<and>
   \<not> succeeded example_capture (Closed (Some 1) None 3000) partly_written \<and>
   \<not> succeeded example_capture (Closed (Some 0) None 3000) capturing"
  by code_simp

subsection \<open>Where the code departs from the specification\<close>

text \<open>
  C1. The claim is that a merge of two or more segments whose concatenation process
  exits with a non-zero code rejects and leaves every segment file on disk. The
  \<open>close\<close> handler unlinks the manifest and all segment files before it looks at the
  exit code: with the two recorded segments of \<open>two_segments\<close>, the completion check
  starts the merge, both segment files exist while it runs, and after exit code 1 the
  promise rejects and both files are gone.
\<close>

theorem merge_failure_deletes_segments:
  "map_option snd (checkCompletion ''out.mp4'' two_segments) = Some (Inr (Spawned example_merge)) \<and>
   files (snd merging) ''recordings/segment_7_0.mp4'' = Some ''first'' \<and>
   files (snd merging) ''recordings/segment_7_1.mp4'' = Some ''second'' \<and>
   snd (merge_close example_merge (Some 1) merging) = Inl (MergeFailed (Some 1)) \<and>
   files (snd (fst (merge_close example_merge (Some 1) merging))) ''recordings/segment_7_0.mp4'' = None \<and>
   files (snd (fst (merge_close example_merge (Some 1) merging))) ''recordings/segment_7_1.mp4'' = None"
  by code_simp

text \<open>
  C6. The claim is that after \<open>stop()\<close> the capture process has received a termination
  signal, both polling loops are stopped and stay stopped, and no merge follows. The
  signal is sent and the loops are stopped, but the \<open>close\<close> event of the killed
  process takes the failure branch of its handler and starts monitoring again: the
  interval is armed, a deep probe is spawned, the next successful poll starts a new
  capture, and when that has filled the session the completion check merges.
\<close>

theorem stop_does_not_stay_stopped:
  "currentProcess (fst partly_written) = Some 0 \<and> isRecording (fst partly_written) \<and>
   signals (snd stopped) = [(0, ''SIGTERM'')] \<and> \<not> isMonitoring (fst stopped) \<and>
   quickCheckInterval (fst stopped) = None \<and> intervals (snd stopped) = [] \<and>
   isMonitoring (fst after_stop) \<and> quickCheckInterval (fst after_stop) = Some 0 \<and>
   intervals (snd after_stop) = [0] \<and>
   last (spawned (snd after_stop)) = (''ffprobe'', ffprobe_args (fst after_stop)) \<and>
   snd (next_capture 40000 after_stop) = Some second_capture \<and>
   map_option snd (checkCompletion ''out.mp4'' finished_after_stop) =
     Some (Inr (Moved ''recordings/out.mp4''))"
  by code_simp

subsection \<open>Capture attempts\<close>

text \<open>
  C2, as claimed: every capture attempt whose process exits within 4 seconds of its
  spawn is a failure whatever the exit code, and is not appended to the segment list.
  The recorder of index.js has no threshold on the elapsed time: a capture that started
  at time 0 and closed at 1000 ms with exit code 0 and its file on disk is appended, with
  a duration of one second.
\<close>

theorem short_capture_is_kept:
  "segmentStartTime example_capture = 0 \<and>
   recordings (fst (fst (capture_close example_capture (Some 0) 1000 partly_written))) =
     [\<lparr>file' = ''recordings/segment_7_0.mp4'', duration = 1000, index = 0\<rparr>]"
  by code_simp

text \<open>
  C2, amended. In the retry loop of the second script, a capture is rejected exactly
  when its process exits less than 5000 ms after the spawn, whatever the exit code, and
  a rejected capture adds nothing to \<open>totalRecorded\<close>. In the recorder of index.js
  the elapsed time plays no part: the \<open>close\<close> handler appends the attempt to the
  segment list exactly when the exit code is 0 and the destination file exists, and
  leaves the list alone otherwise.
\<close>

theorem capture_threshold:
  "(loop_recordSegment_exit filename t0 code now = Inl StreamDown \<longleftrightarrow> now - t0 < 5000) \<and>
   (now - t0 < 5000 \<longrightarrow>
      totalRecorded (loop_iteration (loop_recordSegment_exit filename t0 code now) s) = totalRecorded s) \<and>
   recordings (fst (fst (capture_close cap code' now' (r, w)))) =
     (if code' = Some 0 \<and> existsSync w (segmentFile cap)
      then recordings r @ [\<lparr>file' = segmentFile cap, duration = now' - segmentStartTime cap,
                              index = segmentIndex cap\<rparr>]
      else recordings r)"
proof -
  have d: "(now - t0) div 1000 < 5 \<longleftrightarrow> now - t0 < 5000" by linarith
  have 1: "loop_recordSegment_exit filename t0 code now = Inl StreamDown \<longleftrightarrow> now - t0 < 5000"
    using d by (simp add: loop_recordSegment_exit_def Let_def)
  have 2: "now - t0 < 5000 \<longrightarrow>
      totalRecorded (loop_iteration (loop_recordSegment_exit filename t0 code now) s) = totalRecorded s"
    using 1 by (auto simp: loop_iteration_def)
  obtain s' a where c: "capture_close cap code' now' (r, w) = (s', a)"
    by (cases "capture_close cap code' now' (r, w)")
  from capture_close_cases[OF c] c have 3: "recordings (fst (fst (capture_close cap code' now' (r, w)))) =
     (if code' = Some 0 \<and> existsSync w (segmentFile cap)
      then recordings r @ [\<lparr>file' = segmentFile cap, duration = now' - segmentStartTime cap,
                              index = segmentIndex cap\<rparr>]
      else recordings r)"
    by (simp split: if_splits)
  from 1 2 3 show ?thesis by blast
qed

theorem capture_threshold_witness:
  "(4000::int) - 0 < 5000 \<and>
   loop_recordSegment_exit ''segment_a.mp4'' 0 (Some 0) 4000 = Inl StreamDown \<and>
   totalRecorded (loop_iteration (loop_recordSegment_exit ''segment_a.mp4'' 0 (Some 0) 4000)
      \<lparr>totalRecorded = 60, attempt = 2\<rparr>) = 60 \<and>
   recordings (fst (fst (capture_close example_capture (Some 1) 4000 (example_recorder, example_world)))) = []"
  using capture_threshold [of "''segment_a.mp4''" 0 "Some 0" 4000 "\<lparr>totalRecorded = 60, attempt = 2\<rparr>"
      example_capture "Some 1" 4000 example_recorder example_world]
  by (simp add: example_recorder_def constructor_def loop_iteration_def)



text \<open>
  C3, as claimed: the indices given to the capture attempts of a session are strictly
  increasing. The index of an attempt is the number of segments kept so far, so the
  attempt that follows a failed one gets the same index again: when the first capture
  cannot be spawned and the next poll finds the stream, the indices given are 0 and 0.
\<close>

theorem failed_attempt_index_reused:
  "assigned (play [SpawnFails 0 UV_ENOENT 10, QuickCheck 5000 True]
      (started 2 True 0 (example_recorder, example_world))) = [0, 0]"
  by code_simp

text \<open>
  C3, amended. In every session, whatever the order in which its callbacks run and
  whatever the outcomes of its attempts, the indices given to the capture attempts
  never decrease in the order of creation. They repeat: each attempt is given the
  number of segments kept at its creation, so when an attempt fails with nothing kept
  since it was created and the target not reached, the attempt that the next poll or
  probe verification starts is given the failed attempt's index again.
\<close>

theorem attempt_indices_never_decrease:
  "sorted (assigned (play evs (started d a now s))) \<and>
   (recordSegment now' t = (t', Some cap') \<longrightarrow> segmentIndex cap' = length (recordings (fst t))) \<and>
   (\<not> succeeded cap out t \<and> segmentIndex cap = length (recordings (fst t)) \<and>
    recordedDurationMs (fst t) < totalDurationMs (fst t) \<longrightarrow>
      (\<exists>u c. next_capture now' (settle cap out t) = (u, Some c) \<and> segmentIndex c = segmentIndex cap) \<and>
      (\<exists>u c. probe_verified now' True (settle cap out t) = (u, Some c) \<and> segmentIndex c = segmentIndex cap))"
proof -
  have 1: "sorted (assigned (play evs (started d a now s)))"
    using in_order_play[OF in_order_started, of evs d a now s] by (simp add: in_order_def)
  have 2: "recordSegment now' t = (t', Some cap') \<longrightarrow> segmentIndex cap' = length (recordings (fst t))"
    using recordSegment_cases[of now' t t' "Some cap'"] by auto
  have 3: "\<not> succeeded cap out t \<and> segmentIndex cap = length (recordings (fst t)) \<and>
    recordedDurationMs (fst t) < totalDurationMs (fst t) \<longrightarrow>
      (\<exists>u c. next_capture now' (settle cap out t) = (u, Some c) \<and> segmentIndex c = segmentIndex cap) \<and>
      (\<exists>u c. probe_verified now' True (settle cap out t) = (u, Some c) \<and> segmentIndex c = segmentIndex cap)"
    using next_capture_after_failure[of cap out t now'] by auto
  from 1 2 3 show ?thesis by blast
qed

theorem attempt_indices_never_decrease_witness:
  "\<not> succeeded example_capture (Errored UV_ENOENT 10) capturing \<and>
   segmentIndex example_capture = length (recordings (fst capturing)) \<and>
   recordedDurationMs (fst capturing) < totalDurationMs (fst capturing) \<and>
   (\<exists>u c. next_capture 5000 (settle example_capture (Errored UV_ENOENT 10) capturing) = (u, Some c) \<and>
      segmentIndex c = 0) \<and>
   snd (recordSegment 5000 capturing) = Some (example_capture\<lparr>segmentStartTime := 5000\<rparr>) \<and>
   segmentIndex (example_capture\<lparr>segmentStartTime := 5000\<rparr>) = length (recordings (fst capturing))"
proof -
  have q: "snd (recordSegment 5000 capturing) = Some (example_capture\<lparr>segmentStartTime := 5000\<rparr>)"
    by code_simp
  then have r: "recordSegment 5000 capturing =
      (fst (recordSegment 5000 capturing), Some (example_capture\<lparr>segmentStartTime := 5000\<rparr>))"
    by (simp add: prod_eq_iff)
  have i: "segmentIndex example_capture = 0" by (simp add: example_capture_def)
  note t = attempt_indices_never_decrease
    [where cap = example_capture and out = "Errored UV_ENOENT 10" and t = capturing
       and now' = 5000 and t' = "fst (recordSegment 5000 capturing)"
       and cap' = "example_capture\<lparr>segmentStartTime := 5000\<rparr>"]
  from t r have 1: "segmentIndex (example_capture\<lparr>segmentStartTime := 5000\<rparr>) =
      length (recordings (fst capturing))" by blast
  from t ex_capturing ex_not_succeeded i
  have 2: "\<exists>u c. next_capture 5000 (settle example_capture (Errored UV_ENOENT 10) capturing) = (u, Some c) \<and>
      segmentIndex c = 0" by auto
  from 1 2 q ex_capturing ex_not_succeeded show ?thesis by blast
qed

text \<open>
  C5. When the \<open>close\<close> handler of a successful capture asks for another one
  (accumulated time still below the target), the \<open>recordSegment\<close> that follows does
  start a capture, for a remaining duration of target minus accumulated milliseconds,
  passed to ffmpeg as \<open>-t\<close> in whole seconds, rounded up. Once the accumulated time has
  reached the target, \<open>recordSegment\<close> and \<open>resumeRecording\<close> return without
  starting anything. The completion check calls \<open>mergeRecordings\<close> only when the
  accumulated time has reached the target, and in every session the accumulated time is
  the sum of the durations of the segments kept, so that sum is at least the target
  when the merge is called.
\<close>

theorem next_capture_duration_and_merge_guard:
  "(capture_close cap code now s = (s', Continue) \<longrightarrow>
      recordedDurationMs (fst s') < totalDurationMs (fst s') \<and>
      (\<exists>s'' cap'. recordSegment now' s' = (s'', Some cap') \<and>
         remainingMs cap' = totalDurationMs (fst s') - recordedDurationMs (fst s') \<and>
         last (spawned (snd s'')) =
           (''ffmpeg'', ffmpegArgs (fst s'') (remainingMs cap') (segmentFile cap')) \<and>
         ffmpegArgs (fst s'') (remainingMs cap') (segmentFile cap') ! 16 = ''-t'' \<and>
         ffmpegArgs (fst s'') (remainingMs cap') (segmentFile cap') ! 17 =
           string_of_int \<lceil>rat_of_int (remainingMs cap') / 1000\<rceil>)) \<and>
   (totalDurationMs (fst t) \<le> recordedDurationMs (fst t) \<longrightarrow>
      recordSegment now t = (t, None) \<and> resumeRecording now t = (t, None)) \<and>
   (checkCompletion out t = Some x \<longrightarrow> totalDurationMs (fst t) \<le> recordedDurationMs (fst t)) \<and>
   (checkCompletion out (fst (run_session d a t0 t1 evs s0)) = Some y \<longrightarrow>
      d * 60 * 1000 \<le> sum_list (map duration (recordings (fst (fst (run_session d a t0 t1 evs s0))))))"
proof -
  have 1: "capture_close cap code now s = (s', Continue) \<longrightarrow>
      recordedDurationMs (fst s') < totalDurationMs (fst s') \<and>
      (\<exists>s'' cap'. recordSegment now' s' = (s'', Some cap') \<and>
         remainingMs cap' = totalDurationMs (fst s') - recordedDurationMs (fst s') \<and>
         last (spawned (snd s'')) =
           (''ffmpeg'', ffmpegArgs (fst s'') (remainingMs cap') (segmentFile cap')) \<and>
         ffmpegArgs (fst s'') (remainingMs cap') (segmentFile cap') ! 16 = ''-t'' \<and>
         ffmpegArgs (fst s'') (remainingMs cap') (segmentFile cap') ! 17 =
           string_of_int \<lceil>rat_of_int (remainingMs cap') / 1000\<rceil>)"
    using capture_close_Continue[of cap code now s s'] recordSegment_starts[of s' now'] by blast
  have 2: "totalDurationMs (fst t) \<le> recordedDurationMs (fst t) \<longrightarrow>
      recordSegment now t = (t, None) \<and> resumeRecording now t = (t, None)"
    using recordSegment_complete[of t now] by blast
  have 3: "checkCompletion out t = Some x \<longrightarrow> totalDurationMs (fst t) \<le> recordedDurationMs (fst t)"
    using checkCompletion_guard[of out t x] by blast
  have 4: "checkCompletion out (fst (run_session d a t0 t1 evs s0)) = Some y \<longrightarrow>
      d * 60 * 1000 \<le> sum_list (map duration (recordings (fst (fst (run_session d a t0 t1 evs s0)))))"
    using checkCompletion_guard[of out "fst (run_session d a t0 t1 evs s0)" y]
      run_session_invariant[of d a t0 t1 evs s0] by auto
  from 1 2 3 4 show ?thesis by blast
qed

theorem next_capture_duration_and_merge_guard_witness:
  "snd (capture_close example_capture (Some 0) 60000 partly_written) = Continue \<and>
   (\<exists>s'' cap'. recordSegment 60100 (fst (capture_close example_capture (Some 0) 60000 partly_written)) =
        (s'', Some cap') \<and> remainingMs cap' = 60000) \<and>
   totalDurationMs (fst two_segments) \<le> recordedDurationMs (fst two_segments) \<and>
   snd (recordSegment 60000 two_segments) = None \<and>
   checkCompletion ''out.mp4'' two_segments \<noteq> None \<and>
   2 * 60 * 1000 \<le> sum_list (map duration (recordings (fst two_segments)))"
proof -
  have c: "capture_close example_capture (Some 0) 60000 partly_written =
        (fst (capture_close example_capture (Some 0) 60000 partly_written), Continue)"
    using ex_continue by (simp add: prod_eq_iff)
  obtain y where y: "checkCompletion ''out.mp4'' two_segments = Some y"
    using ex_merge by (cases "checkCompletion ''out.mp4'' two_segments") auto
  have y': "checkCompletion ''out.mp4'' (fst (run_session 2 True 0 0
            [(Closed (Some 0) (Some ''first'') 60000, 60100),
             (Closed (Some 0) (Some ''second'') 120100, 120200)]
            (example_recorder, example_world))) = Some y"
    using y by (simp add: two_segments_def)
  note t = next_capture_duration_and_merge_guard
    [where cap = example_capture and code = "Some 0" and now = 60000 and s = partly_written
       and s' = "fst (capture_close example_capture (Some 0) 60000 partly_written)"
       and now' = 60100 and t = two_segments and out = "''out.mp4''" and x = y
       and d = 2 and a = True and ?t0.0 = 0 and ?t1.0 = 0
       and evs = "[(Closed (Some 0) (Some ''first'') 60000, 60100),
                   (Closed (Some 0) (Some ''second'') 120100, 120200)]"
       and ?s0.0 = "(example_recorder, example_world)" and y = y]
  from t c y y' ex_remaining ex_complete ex_continue show ?thesis
    by (auto simp: two_segments_def)
qed

subsection \<open>The shallow probe\<close>

text \<open>
  C9, as claimed: for every stream URL the probe never throws. The URL is parsed and the
  request is created inside the executor of the promise: a string that does not parse,
  or one that parses with a space left in its path, makes the promise reject.
\<close>

theorem probe_rejects_on_unparsable_url:
  "checkStreamAvailability example_URL (example_recorder\<lparr>streamUrl := ''not a url''\<rparr>) [] =
     Inl (InvalidURL ''not a url'') \<and>
   example_URL ''foo:a b'' \<noteq> None \<and>
   checkStreamAvailability example_URL (example_recorder\<lparr>streamUrl := ''foo:a b''\<rparr>) [Response 200] =
     Inl (UnescapedCharacters ''a b'')"
  by (simp add: checkStreamAvailability_def example_URL_def probe_request_def request_throws_def)

text \<open>
  C9, amended. For every stream URL that \<open>new URL\<close> accepts and whose path and
  query hold no character below U+0021, the probe sends a \<open>HEAD\<close> request and
  resolves to a boolean, which is true exactly when the first thing the request emits
  before the 3000 ms timer is a response with status 200 or 206; an error, a timeout,
  any other status, or nothing at all within 3000 ms resolve to false. For a string
  that does not parse, and for one whose parsed path holds such a character, the
  promise rejects.
\<close>

theorem checkStreamAvailability_resolves:
  "(new_URL (streamUrl r) = Some u \<and> \<not> request_throws (snd (probe_request u)) \<longrightarrow>
      (\<exists>b. checkStreamAvailability new_URL r evs = Inr b \<and>
           (b \<longleftrightarrow> (\<exists>c rest. evs = Response c # rest \<and> (c = 200 \<or> c = 206)))) \<and>
      opt_method (snd (probe_request u)) = ''HEAD'') \<and>
   (new_URL (streamUrl r) = None \<longrightarrow>
      checkStreamAvailability new_URL r evs = Inl (InvalidURL (streamUrl r))) \<and>
   (new_URL (streamUrl r) = Some u \<and> request_throws (snd (probe_request u)) \<longrightarrow>
      checkStreamAvailability new_URL r evs =
        Inl (UnescapedCharacters (opt_path (snd (probe_request u))))) \<and>
   (request_throws (snd (probe_request u)) \<longleftrightarrow>
      (\<exists>c. c \<in> set (pathname u @ search u) \<and> (of_char c :: nat) < 0x21))"
proof -
  have 1: "new_URL (streamUrl r) = Some u \<and> \<not> request_throws (snd (probe_request u)) \<longrightarrow>
      (\<exists>b. checkStreamAvailability new_URL r evs = Inr b \<and>
           (b \<longleftrightarrow> (\<exists>c rest. evs = Response c # rest \<and> (c = 200 \<or> c = 206)))) \<and>
      opt_method (snd (probe_request u)) = ''HEAD''"
    by (auto simp: checkStreamAvailability_def on_request_event_def probe_request_def
        split: list.splits request_event.splits)
  have 2: "new_URL (streamUrl r) = None \<longrightarrow>
      checkStreamAvailability new_URL r evs = Inl (InvalidURL (streamUrl r))"
    by (simp add: checkStreamAvailability_def)
  have 3: "new_URL (streamUrl r) = Some u \<and> request_throws (snd (probe_request u)) \<longrightarrow>
      checkStreamAvailability new_URL r evs =
        Inl (UnescapedCharacters (opt_path (snd (probe_request u))))"
    by (simp add: checkStreamAvailability_def)
  have 4: "request_throws (snd (probe_request u)) \<longleftrightarrow>
      (\<exists>c. c \<in> set (pathname u @ search u) \<and> (of_char c :: nat) < 0x21)"
    by (auto simp: request_throws_def probe_request_def list_ex_iff)
  from 1 2 3 4 show ?thesis by blast
qed

theorem checkStreamAvailability_resolves_witness:
  "example_URL (streamUrl example_recorder) \<noteq> None \<and>
   checkStreamAvailability example_URL example_recorder [Response 206] = Inr True \<and>
   checkStreamAvailability example_URL example_recorder [Response 404] = Inr False \<and>
   checkStreamAvailability example_URL example_recorder [RequestError] = Inr False \<and>
   checkStreamAvailability example_URL example_recorder [RequestTimeout, Response 200] = Inr False \<and>
   checkStreamAvailability example_URL example_recorder [] = Inr False"
  using checkStreamAvailability_resolves [of example_URL example_recorder _ "[Response 206]"]
  by (simp add: checkStreamAvailability_def on_request_event_def example_URL_def
      example_recorder_def constructor_def probe_request_def request_throws_def)

end
